theory Spec2Isabelle
  imports Main
begin

section \<open>The syntax tree handed to the parser package\<close>

text \<open>
  The package \<^verbatim>\<open>parser\<close> reads the tree that Go's \<^verbatim>\<open>go/ast\<close> builds. Only the parts
  that \<^verbatim>\<open>parser.go\<close> inspects are represented.

  A \<^verbatim>\<open>*ast.CommentGroup\<close> is the list of the \<^verbatim>\<open>Text\<close> of its comments; a pointer
  that may be nil is an \<open>option\<close>. An \<^verbatim>\<open>ast.Expr\<close> is one constructor per shape the code
  asserts on (\<^verbatim>\<open>*ast.Ident\<close>, \<^verbatim>\<open>*ast.StarExpr\<close>, \<^verbatim>\<open>*ast.ArrayType\<close>,
  \<^verbatim>\<open>*ast.FuncType\<close>, \<^verbatim>\<open>*ast.StructType\<close>, \<^verbatim>\<open>*ast.InterfaceType\<close>) and the other
  shapes a declared type can have; \<open>OtherExpr\<close> stands for every remaining one (a nil
  interface value included: a type assertion on it fails like on any other shape).
  The \<^verbatim>\<open>Methods\<close> of an interface type are never nil in a tree built by \<^verbatim>\<open>go/parser\<close>
  (\<^verbatim>\<open>extractInterfaceMethods\<close> dereferences them unchecked), so they are a plain list.
\<close>

datatype Expr =
    Ident string
  | StarExpr Expr
  | ArrayType "Expr option" Expr
  | FuncType "ast_Field list option" "ast_Field list option"
  | StructType "ast_Field list option"
  | InterfaceType "ast_Field list"
  | MapType Expr Expr
  | ChanType Expr
  | SelectorExpr Expr string
  | IndexExpr Expr Expr
  | Ellipsis Expr
  | OtherExpr
and ast_Field =
    ast_Field (Doc: "string list option") (Names: "string list") (Type: Expr)
      (Tag: "string option") (Comment: "string list option")

text \<open>
  \<^verbatim>\<open>ast.Spec\<close>. A type spec has its own \<^verbatim>\<open>Doc\<close>, its name and its type: in
  \<^verbatim>\<open>type T struct{}\<close> the comment before the declaration is the \<^verbatim>\<open>Doc\<close> of the
  \<^verbatim>\<open>*ast.GenDecl\<close> and that of the spec is nil; in a parenthesised group
  \<^verbatim>\<open>type ( ... )\<close> the comment before a type of the group is the \<^verbatim>\<open>Doc\<close> of its spec,
  and the \<^verbatim>\<open>Doc\<close> of the \<^verbatim>\<open>*ast.GenDecl\<close> is the comment before the keyword, if any.
\<close>

datatype Spec =
    TypeSpec "string list option" string Expr
  | ImportSpec
  | ValueSpec

record GenDecl =
  GenDecl_Doc :: "string list option"
  Specs :: "Spec list"

text \<open>
  \<^verbatim>\<open>ast.FuncDecl\<close>: \<open>Params\<close> and \<open>Results\<close> are \<^verbatim>\<open>fd.Type.Params\<close> and
  \<^verbatim>\<open>fd.Type.Results\<close> (\<^verbatim>\<open>fd.Type\<close> itself is never nil in a parsed tree).
\<close>

record FuncDecl =
  FuncDecl_Doc :: "string list option"
  Recv :: "ast_Field list option"
  FuncDecl_Name :: "string option"
  Params :: "ast_Field list option"
  Results :: "ast_Field list option"

text \<open>
  The nodes below a file that \<^verbatim>\<open>ast.Walk\<close> hands to the visitor. Each carries the
  nodes \<^verbatim>\<open>ast.Walk\<close> descends into from it, in its order; \<open>OtherNode\<close> is any node
  that is neither a \<^verbatim>\<open>*ast.GenDecl\<close> nor a \<^verbatim>\<open>*ast.FuncDecl\<close> (identifiers, comments,
  statements, expressions, ...). A \<^verbatim>\<open>*ast.File\<close> is only ever the root of a walk.
\<close>

datatype Decl =
    GenDeclNode GenDecl "Decl list"
  | FuncDeclNode FuncDecl "Decl list"
  | OtherNode "Decl list"

record File =
  File_Name :: "string option"
  File_Children :: "Decl list"

text \<open>The argument of \<^verbatim>\<open>Visit\<close>: an \<^verbatim>\<open>ast.Node\<close>, possibly nil.\<close>

datatype Node = NilNode | FileNode File | DeclNode Decl


section \<open>The extracted model\<close>

text \<open>
  Modelled from the spec: the package \<^verbatim>\<open>model\<close> (the types \<^verbatim>\<open>model.Field\<close>,
  \<^verbatim>\<open>model.Operation\<close>, \<^verbatim>\<open>model.Struct\<close>, \<^verbatim>\<open>model.Interface\<close>) is not among the
  sources; the records follow the spec's data model and the fields \<^verbatim>\<open>parser.go\<close> and
  its test assign and read. A Go zero value is the record of empty strings, empty lists,
  \<open>False\<close> and \<open>None\<close>. \<^verbatim>\<open>Struct.Operations\<close> holds pointers to copies of the operations
  (\<^verbatim>\<open>&oper\<close> of a variable local to one loop round), which nothing writes to afterwards:
  the copies are values here.
\<close>

record Field =
  Field_Name :: string
  TypeName :: string
  IsPointer :: bool
  IsSlice :: bool
  Field_Tag :: string
  Field_DocLines :: "string list"
  CommentLines :: "string list"

record Operation =
  Operation_PackageName :: string
  Operation_DocLines :: "string list"
  Operation_Name :: string
  RelatedStruct :: "Field option"
  InputArgs :: "Field list"
  OutputArgs :: "Field list"

record Struct =
  Struct_PackageName :: string
  Struct_DocLines :: "string list"
  Struct_Name :: string
  Struct_Fields :: "Field list"
  Struct_Operations :: "Operation list"

record Interface =
  Interface_PackageName :: string
  Interface_DocLines :: "string list"
  Interface_Name :: string
  Methods :: "Operation list"

definition zeroField :: Field where
  "zeroField = \<lparr>Field_Name = [], TypeName = [], IsPointer = False, IsSlice = False,
     Field_Tag = [], Field_DocLines = [], CommentLines = []\<rparr>"

definition zeroOperation :: Operation where
  "zeroOperation = \<lparr>Operation_PackageName = [], Operation_DocLines = [],
     Operation_Name = [], RelatedStruct = None, InputArgs = [], OutputArgs = []\<rparr>"

definition zeroStruct :: Struct where
  "zeroStruct = \<lparr>Struct_PackageName = [], Struct_DocLines = [], Struct_Name = [],
     Struct_Fields = [], Struct_Operations = []\<rparr>"

definition zeroInterface :: Interface where
  "zeroInterface = \<lparr>Interface_PackageName = [], Interface_DocLines = [],
     Interface_Name = [], Methods = []\<rparr>"


section \<open>Comments, tags and fields\<close>

text \<open>\<^verbatim>\<open>extractDocLines\<close> and \<^verbatim>\<open>extractComments\<close>: one append per comment of the group.\<close>

definition extractDocLines :: "string list option \<Rightarrow> string list" where
  "extractDocLines doc =
     (case doc of
        None \<Rightarrow> []
      | Some lines \<Rightarrow> foldl (\<lambda>docLines line. docLines @ [line]) [] lines)"

definition extractComments :: "string list option \<Rightarrow> string list" where
  "extractComments comment =
     (case comment of
        None \<Rightarrow> []
      | Some cs \<Rightarrow> foldl (\<lambda>lines c. lines @ [c]) [] cs)"

definition extractTag :: "string option \<Rightarrow> string \<times> bool" where
  "extractTag tag = (case tag of Some v \<Rightarrow> (v, True) | None \<Rightarrow> ([], False))"

text \<open>
  \<^verbatim>\<open>_extractField\<close> (an Isabelle name cannot start with an underscore). The three blocks
  of type assertions run one after the other on the same field, as in the source.
\<close>

definition extractField :: "ast_Field \<Rightarrow> Field" where
  "extractField input =
     (let field = zeroField;
          field = field\<lparr>Field_DocLines := extractDocLines (Doc input)\<rparr>;
          field = field\<lparr>CommentLines := extractComments (Comment input)\<rparr>;
          field = (case extractTag (Tag input) of
                     (tag, found) \<Rightarrow> if found then field\<lparr>Field_Tag := tag\<rparr> else field);
          field = (case Type input of
                     ArrayType len elt \<Rightarrow>
                       (let field = field\<lparr>IsSlice := True\<rparr>;
                            field = (case elt of
                                       Ident name \<Rightarrow> field\<lparr>TypeName := name\<rparr>
                                     | _ \<Rightarrow> field);
                            field = (case elt of
                                       StarExpr x \<Rightarrow>
                                         (case x of
                                            Ident name \<Rightarrow>
                                              field\<lparr>TypeName := name, IsPointer := True\<rparr>
                                          | _ \<Rightarrow> field)
                                     | _ \<Rightarrow> field)
                        in field)
                   | _ \<Rightarrow> field);
          field = (case Type input of
                     StarExpr x \<Rightarrow>
                       (case x of
                          Ident name \<Rightarrow> field\<lparr>TypeName := name, IsPointer := True\<rparr>
                        | _ \<Rightarrow> field)
                   | _ \<Rightarrow> field);
          field = (case Type input of
                     Ident name \<Rightarrow> field\<lparr>TypeName := name\<rparr>
                   | _ \<Rightarrow> field)
      in field)"

text \<open>
  \<^verbatim>\<open>extractFields\<close>: nothing for a nil field, one anonymous field when there is no name,
  otherwise one field per name, each extracted afresh and then named.
\<close>

definition extractFields :: "ast_Field option \<Rightarrow> Field list" where
  "extractFields input =
     (case input of
        None \<Rightarrow> []
      | Some inp \<Rightarrow>
          if length (Names inp) = 0 then [] @ [extractField inp]
          else foldl (\<lambda>fields name. fields @ [(extractField inp)\<lparr>Field_Name := name\<rparr>])
                 [] (Names inp))"

text \<open>\<^verbatim>\<open>extractFieldList\<close>: the fields of every member of the list, in order.\<close>

definition extractFieldList :: "ast_Field list option \<Rightarrow> Field list" where
  "extractFieldList fl =
     (case fl of
        None \<Rightarrow> []
      | Some l \<Rightarrow> foldl (\<lambda>fields p. fields @ extractFields (Some p)) [] l)"


section \<open>The declaration extractors\<close>

text \<open>
  \<^verbatim>\<open>extractInterfaceMethods\<close>: a member with at least one name whose type is a function
  type becomes an operation named after the first name; every other member is dropped.
\<close>

definition interfaceMethod :: "Operation list \<Rightarrow> ast_Field \<Rightarrow> Operation list" where
  "interfaceMethod methods m =
     (if length (Names m) > 0 then
        (let oper = zeroOperation\<lparr>Operation_DocLines := extractDocLines (Doc m)\<rparr>;
             oper = oper\<lparr>Operation_Name := hd (Names m)\<rparr>
         in case Type m of
              FuncType params results \<Rightarrow>
                (let oper = (case params of
                               Some ps \<Rightarrow> oper\<lparr>InputArgs := extractFieldList (Some ps)\<rparr>
                             | None \<Rightarrow> oper);
                     oper = (case results of
                               Some rs \<Rightarrow> oper\<lparr>OutputArgs := extractFieldList (Some rs)\<rparr>
                             | None \<Rightarrow> oper)
                 in methods @ [oper])
            | _ \<Rightarrow> methods)
      else methods)"

definition extractInterfaceMethods :: "ast_Field list \<Rightarrow> Operation list" where
  "extractInterfaceMethods fl = foldl interfaceMethod [] fl"

text \<open>
  \<^verbatim>\<open>extractSpecsForStruct\<close> and \<^verbatim>\<open>extractSpecsForInterface\<close> look at \<^verbatim>\<open>specs[0]\<close> only.
  The name is set as soon as the first spec is a type spec, found or not. The \<^verbatim>\<open>Doc\<close> of
  the spec is not read.
\<close>

definition extractSpecsForStruct :: "Spec list \<Rightarrow> Struct \<times> bool" where
  "extractSpecsForStruct specs =
     (let found = False; str = zeroStruct in
      if length specs \<ge> 1 then
        (case hd specs of
           TypeSpec tsDoc tsName tsType \<Rightarrow>
             (let str = str\<lparr>Struct_Name := tsName\<rparr> in
              case tsType of
                StructType ssFields \<Rightarrow> (str\<lparr>Struct_Fields := extractFieldList ssFields\<rparr>, True)
              | _ \<Rightarrow> (str, found))
         | _ \<Rightarrow> (str, found))
      else (str, found))"

definition extractSpecsForInterface :: "Spec list \<Rightarrow> Interface \<times> bool" where
  "extractSpecsForInterface specs =
     (let found = False; interf = zeroInterface in
      if length specs \<ge> 1 then
        (case hd specs of
           TypeSpec tsDoc tsName tsType \<Rightarrow>
             (let interf = interf\<lparr>Interface_Name := tsName\<rparr> in
              case tsType of
                InterfaceType methods \<Rightarrow>
                  (interf\<lparr>Methods := extractInterfaceMethods methods\<rparr>, True)
              | _ \<Rightarrow> (interf, found))
         | _ \<Rightarrow> (interf, found))
      else (interf, found))"

text \<open>
  \<^verbatim>\<open>extractGenDeclForStruct\<close> and \<^verbatim>\<open>extractGenDecForInterface\<close>: the doc lines are those
  of the declaration node (\<^verbatim>\<open>gd.Doc\<close>), set whenever the node is a \<^verbatim>\<open>*ast.GenDecl\<close>.
\<close>

definition extractGenDeclForStruct :: "Node \<Rightarrow> Struct \<times> bool" where
  "extractGenDeclForStruct node =
     (case node of
        DeclNode (GenDeclNode gd cs) \<Rightarrow>
          (case extractSpecsForStruct (Specs gd) of
             (str, found) \<Rightarrow> (str\<lparr>Struct_DocLines := extractDocLines (GenDecl_Doc gd)\<rparr>, found))
      | _ \<Rightarrow> (zeroStruct, False))"

definition extractGenDecForInterface :: "Node \<Rightarrow> Interface \<times> bool" where
  "extractGenDecForInterface node =
     (case node of
        DeclNode (GenDeclNode gd cs) \<Rightarrow>
          (case extractSpecsForInterface (Specs gd) of
             (iface, found) \<Rightarrow>
               (iface\<lparr>Interface_DocLines := extractDocLines (GenDecl_Doc gd)\<rparr>, found))
      | _ \<Rightarrow> (zeroInterface, False))"

definition extractPackageName :: "Node \<Rightarrow> string \<times> bool" where
  "extractPackageName node =
     (case node of
        FileNode fil \<Rightarrow> (case File_Name fil of Some n \<Rightarrow> (n, True) | None \<Rightarrow> ([], True))
      | _ \<Rightarrow> ([], False))"

definition extractOperation :: "Node \<Rightarrow> Operation \<times> bool" where
  "extractOperation node =
     (case node of
        DeclNode (FuncDeclNode fd cs) \<Rightarrow>
          (let oper = zeroOperation\<lparr>Operation_DocLines := extractDocLines (FuncDecl_Doc fd)\<rparr>;
               oper = (case Recv fd of
                         Some r \<Rightarrow>
                           (let recvd = extractFieldList (Some r) in
                            if length recvd \<ge> 1 then oper\<lparr>RelatedStruct := Some (hd recvd)\<rparr>
                            else oper)
                       | None \<Rightarrow> oper);
               oper = (case FuncDecl_Name fd of
                         Some n \<Rightarrow> oper\<lparr>Operation_Name := n\<rparr>
                       | None \<Rightarrow> oper);
               oper = (case Params fd of
                         Some ps \<Rightarrow> oper\<lparr>InputArgs := extractFieldList (Some ps)\<rparr>
                       | None \<Rightarrow> oper);
               oper = (case Results fd of
                         Some rs \<Rightarrow> oper\<lparr>OutputArgs := extractFieldList (Some rs)\<rparr>
                       | None \<Rightarrow> oper)
           in (oper, True))
      | _ \<Rightarrow> (zeroOperation, False))"


section \<open>The visitor and the walk\<close>

record AstVisitor =
  PackageName :: string
  Structs :: "Struct list"
  Operations :: "Operation list"
  Interfaces :: "Interface list"

definition zeroAstVisitor :: AstVisitor where
  "zeroAstVisitor = \<lparr>PackageName = [], Structs = [], Operations = [], Interfaces = []\<rparr>"

text \<open>\<^verbatim>\<open>Visit\<close> mutates the visitor and returns it; here it returns the new state.\<close>

definition Visit :: "AstVisitor \<Rightarrow> Node \<Rightarrow> AstVisitor" where
  "Visit v node =
     (case node of
        NilNode \<Rightarrow> v
      | _ \<Rightarrow>
        (let v = (case extractPackageName node of
                    (pName, found) \<Rightarrow> if found then v\<lparr>PackageName := pName\<rparr> else v);
             v = (case extractGenDeclForStruct node of
                    (str, found) \<Rightarrow>
                      if found
                      then v\<lparr>Structs := Structs v @ [str\<lparr>Struct_PackageName := PackageName v\<rparr>]\<rparr>
                      else v);
             v = (case extractGenDecForInterface node of
                    (iface, found) \<Rightarrow>
                      if found
                      then v\<lparr>Interfaces :=
                             Interfaces v @ [iface\<lparr>Interface_PackageName := PackageName v\<rparr>]\<rparr>
                      else v);
             v = (case extractOperation node of
                    (operation, ok) \<Rightarrow>
                      if ok
                      then v\<lparr>Operations :=
                             Operations v @ [operation\<lparr>Operation_PackageName := PackageName v\<rparr>]\<rparr>
                      else v)
         in v))"

text \<open>
  \<^verbatim>\<open>ast.Walk\<close> (Go's standard library): visit the node, walk the nodes below it in
  order, then visit nil. \<^verbatim>\<open>Visit\<close> always returns the visitor, so the walk never stops
  early.
\<close>

fun WalkDecl :: "AstVisitor \<Rightarrow> Decl \<Rightarrow> AstVisitor"
  and WalkList :: "AstVisitor \<Rightarrow> Decl list \<Rightarrow> AstVisitor" where
  "WalkDecl v (GenDeclNode gd cs) =
     Visit (WalkList (Visit v (DeclNode (GenDeclNode gd cs))) cs) NilNode"
| "WalkDecl v (FuncDeclNode fd cs) =
     Visit (WalkList (Visit v (DeclNode (FuncDeclNode fd cs))) cs) NilNode"
| "WalkDecl v (OtherNode cs) =
     Visit (WalkList (Visit v (DeclNode (OtherNode cs))) cs) NilNode"
| "WalkList v [] = v"
| "WalkList v (n # ns) = WalkList (WalkDecl v n) ns"

definition Walk :: "AstVisitor \<Rightarrow> File \<Rightarrow> AstVisitor" where
  "Walk v f = Visit (WalkList (Visit v (FileNode f)) (File_Children f)) NilNode"



section \<open>Parsing a directory and cross-linking\<close>

text \<open>
  The cross-linking pass of \<^verbatim>\<open>ParseSourceDir\<close>. \<^verbatim>\<open>allStructs\<close> maps a struct name to
  \<^verbatim>\<open>&v.Structs[idx]\<close>; the pointer is the index \<open>idx\<close> into the list of structs, and a
  write through it is an update of the list at that index. A later struct overwrites
  the entry of an earlier one of the same name.
\<close>

definition allStructsOf :: "Struct list \<Rightarrow> (string \<rightharpoonup> nat)" where
  "allStructsOf structs =
     foldl (\<lambda>allStructs idx. allStructs(Struct_Name (structs ! idx) \<mapsto> idx))
       Map.empty [0..<length structs]"

definition linkOperation :: "(string \<rightharpoonup> nat) \<Rightarrow> Struct list \<Rightarrow> Operation \<Rightarrow> Struct list" where
  "linkOperation allStructs structs oper =
     (case RelatedStruct oper of
        Some rs \<Rightarrow>
          (case allStructs (TypeName rs) of
             Some found \<Rightarrow>
               structs[found := (structs ! found)
                 \<lparr>Struct_Operations := Struct_Operations (structs ! found) @ [oper]\<rparr>]
           | None \<Rightarrow> structs)
      | None \<Rightarrow> structs)"

definition crossLink :: "AstVisitor \<Rightarrow> AstVisitor" where
  "crossLink v =
     (let allStructs = allStructsOf (Structs v)
      in v\<lparr>Structs := foldl (linkOperation allStructs) (Structs v) (Operations v)\<rparr>)"

text \<open>
  What is on disk. An entry of a directory has its base name, whether it is itself a
  directory, and the outcome \<^verbatim>\<open>parser.ParseFile\<close> has on it: the syntax error or the
  tree. A directory is unreadable (with the error of reading it) or a listing.
\<close>

record DirEntry =
  Entry_Name :: string
  Entry_IsDir :: bool
  Entry_Parse :: "string + File"

datatype Directory = Unreadable string | Listing "DirEntry list"

text \<open>
  \<^verbatim>\<open>map[string]*ast.Package\<close>: the packages by name, each with its files by file name,
  in the order they were entered.
\<close>

type_synonym Package = "string \<times> (string \<times> File) list"

text \<open>
  Go ranges over a map in an unspecified order, every entry once. The order a run takes
  is a parameter of the model: \<open>rangePackages\<close> rearranges the packages and \<open>rangeFiles\<close>
  the files of a package into the order in which the two loops of \<^verbatim>\<open>ParseSourceDir\<close> meet
  them. \<open>isMapOrder\<close> says that both only rearrange.
\<close>

record MapOrder =
  rangePackages :: "Package list \<Rightarrow> Package list"
  rangeFiles :: "(string \<times> File) list \<Rightarrow> (string \<times> File) list"

definition isMapOrder :: "MapOrder \<Rightarrow> bool" where
  "isMapOrder ord \<longleftrightarrow>
     (\<forall>ps p. count_list (rangePackages ord ps) p = count_list ps p) \<and>
     (\<forall>fs f. count_list (rangeFiles ord fs) f = count_list fs f)"

fun addFile :: "string \<Rightarrow> string \<Rightarrow> File \<Rightarrow> Package list \<Rightarrow> Package list" where
  "addFile name filename src [] = [(name, [(filename, src)])]"
| "addFile name filename src ((n, files) # pkgs) =
     (if n = name then (n, files @ [(filename, src)]) # pkgs
      else (n, files) # addFile name filename src pkgs)"

definition hasSuffix :: "string \<Rightarrow> string \<Rightarrow> bool" where
  "hasSuffix s suffix =
     (length suffix \<le> length s \<and> drop (length s - length suffix) s = suffix)"

text \<open>
  \<^verbatim>\<open>parser.ParseDir\<close> of Go's standard library, as its documentation and source have
  it: an unreadable directory gives no packages and the error; otherwise every entry
  that is not a directory, whose name ends in \<^verbatim>\<open>.go\<close> and that the filter \<open>accept\<close> lets through is
  parsed; a tree goes into the package named in its package clause, and the first
  error met is returned beside the packages of the files that did parse.
\<close>

definition go_ParseDir_step ::
    "string \<Rightarrow> (string \<Rightarrow> bool) \<Rightarrow> Package list \<times> string option \<Rightarrow> DirEntry
       \<Rightarrow> Package list \<times> string option" where
  "go_ParseDir_step path accept acc d =
     (case acc of (pkgs, first) \<Rightarrow>
        if Entry_IsDir d \<or> \<not> hasSuffix (Entry_Name d) ''.go'' then (pkgs, first)
        else if \<not> accept (Entry_Name d) then (pkgs, first)
        else
          (case Entry_Parse d of
             Inr src \<Rightarrow>
               (addFile (case File_Name src of Some n \<Rightarrow> n | None \<Rightarrow> [])
                  (path @ ''/'' @ Entry_Name d) src pkgs, first)
           | Inl err \<Rightarrow> (pkgs, if first = None then Some err else first)))"

definition go_ParseDir ::
    "string \<Rightarrow> (string \<Rightarrow> bool) \<Rightarrow> Directory \<Rightarrow> Package list \<times> string option" where
  "go_ParseDir path accept dir =
     (case dir of
        Unreadable err \<Rightarrow> ([], Some err)
      | Listing list \<Rightarrow> foldl (go_ParseDir_step path accept) ([], None) list)"

text \<open>
  A failure of the package: \<open>Panic\<close> when \<^verbatim>\<open>regexp.MustCompile\<close> rejects the pattern,
  \<open>Error\<close> with the error value that is returned otherwise. The file name pattern is
  given compiled: \<open>None\<close> when it does not compile, else the predicate
  \<^verbatim>\<open>pattern.MatchString\<close>. Logging is not modelled.
\<close>

datatype failure = Panic | Error string

definition parseDir ::
    "string \<Rightarrow> (string \<Rightarrow> bool) option \<Rightarrow> Directory
       \<Rightarrow> failure + (Package list \<times> string option)" where
  "parseDir dirName filenameRegex dir =
     (case filenameRegex of
        None \<Rightarrow> Inl Panic
      | Some pattern \<Rightarrow>
          (case go_ParseDir dirName (\<lambda>fiName. pattern fiName) dir of
             (packages, err) \<Rightarrow>
               if err \<noteq> None then Inr (packages, err) else Inr (packages, None)))"

text \<open>
  \<^verbatim>\<open>ParseSourceFile\<close>, given the outcome of \<^verbatim>\<open>parser.ParseFile\<close> on the file: the
  error, or the visitor after the walk of the tree (without cross-linking).
\<close>

definition ParseSourceFile :: "string + File \<Rightarrow> failure + AstVisitor" where
  "ParseSourceFile parsed =
     (case parsed of
        Inl err \<Rightarrow> Inl (Error err)
      | Inr f \<Rightarrow> Inr (Walk zeroAstVisitor f))"

text \<open>
  The two nested loops of \<^verbatim>\<open>ParseSourceDir\<close> over the packages and over the files of
  each package, in the order \<open>ord\<close> gives.
\<close>

definition walkPackages :: "MapOrder \<Rightarrow> AstVisitor \<Rightarrow> Package list \<Rightarrow> AstVisitor" where
  "walkPackages ord v packages =
     foldl (\<lambda>v p. foldl (\<lambda>v f. Walk v (snd f)) v (rangeFiles ord (snd p))) v
       (rangePackages ord packages)"

definition ParseSourceDir ::
    "MapOrder \<Rightarrow> string \<Rightarrow> (string \<Rightarrow> bool) option \<Rightarrow> Directory
       \<Rightarrow> failure + AstVisitor" where
  "ParseSourceDir ord dirName filenameRegex dir =
     (case parseDir dirName filenameRegex dir of
        Inl p \<Rightarrow> Inl p
      | Inr (packages, err) \<Rightarrow>
          (case err of
             Some e \<Rightarrow> Inl (Error e)
           | None \<Rightarrow> Inr (crossLink (walkPackages ord zeroAstVisitor packages))))"


section \<open>The validators of the REST annotations\<close>

text \<open>
  Modelled from the spec: the type \<^verbatim>\<open>annotation.Annotation\<close> is not among the sources;
  it has a name and a mapping of attribute names to values.
\<close>

record Annotation =
  Annotation_Name :: string
  Attributes :: "string \<rightharpoonup> string"

definition typeRestOperation :: string where "typeRestOperation = ''RestOperation''"
definition typeRestService :: string where "typeRestService = ''RestService''"
definition paramPath :: string where "paramPath = ''path''"
definition paramMethod :: string where "paramMethod = ''method''"

text \<open>Go's two-valued map index: the value (the empty string when absent) and presence.\<close>

definition index2 :: "(string \<rightharpoonup> string) \<Rightarrow> string \<Rightarrow> string \<times> bool" where
  "index2 m k = (case m k of Some v \<Rightarrow> (v, True) | None \<Rightarrow> ([], False))"

definition validateRestOperationAnnotation :: "Annotation \<Rightarrow> bool" where
  "validateRestOperationAnnotation annot =
     (if Annotation_Name annot = typeRestOperation then
        (case index2 (Attributes annot) paramPath of
           (path, hasPath) \<Rightarrow>
             (case index2 (Attributes annot) paramMethod of
                (method, hasMethod) \<Rightarrow>
                  ((hasPath \<and> path \<noteq> []) \<and> hasMethod \<and> method \<noteq> [])))
      else False)"

definition validateRestServiceAnnotation :: "Annotation \<Rightarrow> bool" where
  "validateRestServiceAnnotation annot =
     (if Annotation_Name annot = typeRestService then
        (case index2 (Attributes annot) paramPath of (_, ok) \<Rightarrow> ok)
      else False)"

text \<open>
  The required attribute names \<^verbatim>\<open>Register\<close> passes for each validator, and what the
  contract of a validator asks of them: each is present with a non-empty value.
\<close>

definition requiredOfRestOperation :: "string list" where
  "requiredOfRestOperation = [paramMethod, paramPath]"

definition requiredOfRestService :: "string list" where
  "requiredOfRestService = [paramPath]"

definition presentNonEmpty :: "Annotation \<Rightarrow> string \<Rightarrow> bool" where
  "presentNonEmpty annot name =
     (case Attributes annot name of Some v \<Rightarrow> v \<noteq> [] | None \<Rightarrow> False)"

section \<open>Auxiliary notions and sample inputs\<close>

text \<open>
  \<open>taggedSince v v'\<close>: the visitor \<open>v'\<close> has the package name of \<open>v\<close>, and its three lists
  are those of \<open>v\<close> followed by entities that all carry that package name.
\<close>

definition taggedSince :: "AstVisitor \<Rightarrow> AstVisitor \<Rightarrow> bool" where
  "taggedSince v v' \<longleftrightarrow>
     PackageName v' = PackageName v \<and>
     (\<exists>ss. Structs v' = Structs v @ ss \<and>
        (\<forall>s \<in> set ss. Struct_PackageName s = PackageName v)) \<and>
     (\<exists>ifs. Interfaces v' = Interfaces v @ ifs \<and>
        (\<forall>i \<in> set ifs. Interface_PackageName i = PackageName v)) \<and>
     (\<exists>os. Operations v' = Operations v @ os \<and>
        (\<forall>i \<in> set os. Operation_PackageName i = PackageName v))"

text \<open>
  \<open>linksTo allStructs i oper\<close>: the operation has a receiver whose type name the lookup
  table sends to the struct at index \<open>i\<close>.
\<close>

definition linksTo :: "(string \<rightharpoonup> nat) \<Rightarrow> nat \<Rightarrow> Operation \<Rightarrow> bool" where
  "linksTo allStructs i oper =
     (case RelatedStruct oper of
        Some rs \<Rightarrow> allStructs (TypeName rs) = Some i
      | None \<Rightarrow> False)"

text \<open>An entry of a directory that \<^verbatim>\<open>parser.ParseDir\<close> parses under a file name pattern.\<close>

definition selectedBy :: "(string \<Rightarrow> bool) \<Rightarrow> DirEntry \<Rightarrow> bool" where
  "selectedBy pattern d \<longleftrightarrow>
     \<not> Entry_IsDir d \<and> hasSuffix (Entry_Name d) ''.go'' \<and> pattern (Entry_Name d)"

text \<open>
  A sample directory \<^verbatim>\<open>./operations\<close>. \<^verbatim>\<open>service.go\<close> is
  \<^verbatim>\<open>package operations\<close> with a documented \<^verbatim>\<open>type Service struct{}\<close>, an interface
  \<^verbatim>\<open>Getter\<close> with one method, and the method
  \<^verbatim>\<open>func (serv *Service) getPersons() ([]Person, error)\<close> of the repository's test, whose
  body declares a local struct type. \<^verbatim>\<open>service_test.go\<close> is
  \<^verbatim>\<open>package operations_test\<close> with a struct of its own that is also called
  \<^verbatim>\<open>Service\<close>. \<^verbatim>\<open>broken.go\<close> has a syntax error.
\<close>

definition serviceFile :: File where
  "serviceFile = \<lparr>File_Name = Some ''operations'',
     File_Children =
       [OtherNode [],
        GenDeclNode \<lparr>GenDecl_Doc = Some [''// docline for Service''],
            Specs = [TypeSpec None ''Service'' (StructType (Some []))]\<rparr> [OtherNode []],
        GenDeclNode \<lparr>GenDecl_Doc = None,
            Specs = [TypeSpec None ''Getter'' (InterfaceType
              [ast_Field None [''get''] (FuncType (Some []) None) None None])]\<rparr> [],
        FuncDeclNode \<lparr>FuncDecl_Doc = Some [''// docline for getPersons''],
            Recv = Some [ast_Field None [''serv''] (StarExpr (Ident ''Service'')) None None],
            FuncDecl_Name = Some ''getPersons'',
            Params = Some [],
            Results = Some [ast_Field None [] (ArrayType None (Ident ''Person'')) None None,
                            ast_Field None [] (Ident ''error'') None None]\<rparr>
          [OtherNode [GenDeclNode \<lparr>GenDecl_Doc = None,
             Specs = [TypeSpec None ''local'' (StructType (Some []))]\<rparr> []]]]\<rparr>"

definition serviceTestFile :: File where
  "serviceTestFile = \<lparr>File_Name = Some ''operations_test'',
     File_Children =
       [GenDeclNode \<lparr>GenDecl_Doc = None,
            Specs = [TypeSpec None ''Service'' (StructType (Some []))]\<rparr> []]\<rparr>"

definition serviceEntry :: DirEntry where
  "serviceEntry =
     \<lparr>Entry_Name = ''service.go'', Entry_IsDir = False, Entry_Parse = Inr serviceFile\<rparr>"

definition serviceTestEntry :: DirEntry where
  "serviceTestEntry =
     \<lparr>Entry_Name = ''service_test.go'', Entry_IsDir = False,
      Entry_Parse = Inr serviceTestFile\<rparr>"

definition brokenEntry :: DirEntry where
  "brokenEntry =
     \<lparr>Entry_Name = ''broken.go'', Entry_IsDir = False,
      Entry_Parse = Inl ''broken.go:1:1: expected declaration''\<rparr>"

definition operationsDir :: Directory where
  "operationsDir = Listing [serviceEntry, serviceTestEntry]"

definition brokenDir :: Directory where
  "brokenDir = Listing [serviceEntry, brokenEntry, serviceTestEntry]"

definition getPersons :: Operation where
  "getPersons =
     \<lparr>Operation_PackageName = ''operations'',
      Operation_DocLines = [''// docline for getPersons''],
      Operation_Name = ''getPersons'',
      RelatedStruct = Some \<lparr>Field_Name = ''serv'', TypeName = ''Service'', IsPointer = True,
        IsSlice = False, Field_Tag = [], Field_DocLines = [], CommentLines = []\<rparr>,
      InputArgs = [],
      OutputArgs =
        [\<lparr>Field_Name = [], TypeName = ''Person'', IsPointer = False, IsSlice = True,
          Field_Tag = [], Field_DocLines = [], CommentLines = []\<rparr>,
         \<lparr>Field_Name = [], TypeName = ''error'', IsPointer = False, IsSlice = False,
          Field_Tag = [], Field_DocLines = [], CommentLines = []\<rparr>]\<rparr>"

text \<open>The file name pattern \<^verbatim>\<open>.*\<close> of the repository's test: it matches every name.\<close>

definition matchAll :: "string \<Rightarrow> bool" where
  "matchAll fiName = True"

text \<open>
  The two orders in which a run can meet the two packages of the sample directory: as
  listed, and reversed.
\<close>

definition listingOrder :: MapOrder where
  "listingOrder = \<lparr>rangePackages = (\<lambda>ps. ps), rangeFiles = (\<lambda>fs. fs)\<rparr>"

definition reverseOrder :: MapOrder where
  "reverseOrder = \<lparr>rangePackages = rev, rangeFiles = rev\<rparr>"


text \<open>The visitor after both sample files have been walked, before cross-linking.\<close>

definition operationsWalked :: AstVisitor where
  "operationsWalked = Walk (Walk zeroAstVisitor serviceFile) serviceTestFile"

text \<open>What \<^verbatim>\<open>ParseSourceDir\<close> returns for the sample directory.\<close>

definition operationsHarvest :: AstVisitor where
  "operationsHarvest =
     \<lparr>PackageName = ''operations_test'',
      Structs =
        [\<lparr>Struct_PackageName = ''operations'', Struct_DocLines = [''// docline for Service''],
          Struct_Name = ''Service'', Struct_Fields = [], Struct_Operations = []\<rparr>,
         \<lparr>Struct_PackageName = ''operations'', Struct_DocLines = [],
          Struct_Name = ''local'', Struct_Fields = [], Struct_Operations = []\<rparr>,
         \<lparr>Struct_PackageName = ''operations_test'', Struct_DocLines = [],
          Struct_Name = ''Service'', Struct_Fields = [], Struct_Operations = [getPersons]\<rparr>],
      Operations = [getPersons],
      Interfaces =
        [\<lparr>Interface_PackageName = ''operations'', Interface_DocLines = [],
          Interface_Name = ''Getter'',
          Methods = [\<lparr>Operation_PackageName = [], Operation_DocLines = [],
            Operation_Name = ''get'', RelatedStruct = None, InputArgs = [],
            OutputArgs = []\<rparr>]\<rparr>]\<rparr>"

section \<open>Properties of field extraction\<close>

lemma foldl_snoc_map: "foldl (\<lambda>acc x. acc @ [f x]) acc xs = acc @ map f xs"
  by (induction xs arbitrary: acc) simp_all


lemma foldl_append_concat: "foldl (\<lambda>acc x. acc @ f x) acc xs = acc @ concat (map f xs)"
  by (induction xs arbitrary: acc) simp_all


lemma extractFields_Some:
  "extractFields (Some inp) =
     (if Names inp = [] then [extractField inp]
      else map (\<lambda>name. (extractField inp)\<lparr>Field_Name := name\<rparr>) (Names inp))"
  by (simp add: extractFields_def foldl_snoc_map)

lemma extractFieldList_Some:
  "extractFieldList (Some l) = concat (map (\<lambda>p. extractFields (Some p)) l)"
  by (simp add: extractFieldList_def foldl_append_concat)

lemmas extractField_unfold = extractField_def extractTag_def zeroField_def

lemma extractField_slice_pointer:
  "Type inp = ArrayType len (StarExpr (Ident T)) \<Longrightarrow>
     IsSlice (extractField inp) \<and> IsPointer (extractField inp) \<and>
     TypeName (extractField inp) = T"
  by (simp add: extractField_unfold split: option.splits)

lemma extractField_slice_plain:
  "Type inp = ArrayType len (Ident X) \<Longrightarrow>
     IsSlice (extractField inp) \<and> \<not> IsPointer (extractField inp) \<and>
     TypeName (extractField inp) = X"
  by (simp add: extractField_unfold split: option.splits)

lemma extractField_Name: "Field_Name (extractField inp) = []"
proof (cases "Type inp")
  case (StarExpr x)
  then show ?thesis
    by (cases x) (simp_all add: extractField_unfold split: option.splits)
next
  case (ArrayType len elt)
  show ?thesis
  proof (cases elt)
    case (StarExpr x)
    with ArrayType show ?thesis
      by (cases x) (simp_all add: extractField_unfold split: option.splits)
  qed (use ArrayType in \<open>simp_all add: extractField_unfold split: option.splits\<close>)
qed (simp_all add: extractField_unfold split: option.splits)


lemma extractField_other:
  assumes "\<forall>len elt. Type inp \<noteq> ArrayType len elt"
    and "\<forall>n. Type inp \<noteq> StarExpr (Ident n)"
    and "\<forall>n. Type inp \<noteq> Ident n"
  shows "TypeName (extractField inp) = [] \<and> \<not> IsPointer (extractField inp) \<and>
    \<not> IsSlice (extractField inp)"
proof (cases "Type inp")
  case (StarExpr x)
  with assms show ?thesis
    by (cases x) (simp_all add: extractField_unfold split: option.splits)
qed (use assms in \<open>simp_all add: extractField_unfold split: option.splits\<close>)

lemma extractFields_nonempty: "extractFields (Some inp) \<noteq> []"
  by (simp add: extractFields_Some)

lemma extractFields_elem:
  assumes "f \<in> set (extractFields (Some inp))"
  shows "\<exists>name. f = (extractField inp)\<lparr>Field_Name := name\<rparr>"
proof (cases "Names inp = []")
  case True
  with assms have "f = extractField inp"
    by (simp add: extractFields_Some)
  then have "f = (extractField inp)\<lparr>Field_Name := Field_Name (extractField inp)\<rparr>"
    by simp
  then show ?thesis ..
next
  case False
  with assms show ?thesis
    by (simp add: extractFields_Some image_iff) blast
qed

lemma extractFields_type:
  assumes "f \<in> set (extractFields (Some inp))"
  shows "TypeName f = TypeName (extractField inp)"
    and "IsPointer f = IsPointer (extractField inp)"
    and "IsSlice f = IsSlice (extractField inp)"
    and "Field_DocLines f = Field_DocLines (extractField inp)"
proof -
  from extractFields_elem [OF assms] obtain name
    where f: "f = (extractField inp)\<lparr>Field_Name := name\<rparr>" ..
  show "TypeName f = TypeName (extractField inp)" by (simp add: f)
  show "IsPointer f = IsPointer (extractField inp)" by (simp add: f)
  show "IsSlice f = IsSlice (extractField inp)" by (simp add: f)
  show "Field_DocLines f = Field_DocLines (extractField inp)" by (simp add: f)
qed

text \<open>
  Claim C3. A field-like unit whose type is a slice (or array) of pointers to a plain
  named type \<open>T\<close> is extracted with \<open>IsSlice\<close> and \<open>IsPointer\<close> set and \<open>TypeName = T\<close>; one
  whose type is a slice of a plain named type \<open>X\<close> with \<open>IsSlice\<close> set, \<open>IsPointer\<close> unset
  and \<open>TypeName = X\<close>. This holds of \<^verbatim>\<open>_extractField\<close> and of every field that
  \<^verbatim>\<open>extractFields\<close> returns for the unit, and there is at least one.
\<close>

theorem slice_type_resolution:
  "(Type inp = ArrayType len (StarExpr (Ident T)) \<longrightarrow>
      IsSlice (extractField inp) \<and> IsPointer (extractField inp) \<and>
      TypeName (extractField inp) = T \<and>
      extractFields (Some inp) \<noteq> [] \<and>
      (\<forall>f \<in> set (extractFields (Some inp)). IsSlice f \<and> IsPointer f \<and> TypeName f = T)) \<and>
   (Type inp = ArrayType len (Ident X) \<longrightarrow>
      IsSlice (extractField inp) \<and> \<not> IsPointer (extractField inp) \<and>
      TypeName (extractField inp) = X \<and>
      extractFields (Some inp) \<noteq> [] \<and>
      (\<forall>f \<in> set (extractFields (Some inp)). IsSlice f \<and> \<not> IsPointer f \<and> TypeName f = X))"
  using extractField_slice_pointer [of inp len T] extractField_slice_plain [of inp len X]
    extractFields_nonempty [of inp]
  by (simp add: extractFields_type)

theorem slice_type_resolution_witness:
  "extractFields (Some (ast_Field None [''persons'']
      (ArrayType None (StarExpr (Ident ''Person''))) None None)) =
     [\<lparr>Field_Name = ''persons'', TypeName = ''Person'', IsPointer = True, IsSlice = True,
       Field_Tag = [], Field_DocLines = [], CommentLines = []\<rparr>] \<and>
   extractFields (Some (ast_Field None [] (ArrayType None (Ident ''Person'')) None None)) =
     [\<lparr>Field_Name = [], TypeName = ''Person'', IsPointer = False, IsSlice = True,
       Field_Tag = [], Field_DocLines = [], CommentLines = []\<rparr>]"
  using slice_type_resolution [of "ast_Field None [''persons'']
        (ArrayType None (StarExpr (Ident ''Person''))) None None" None "''Person''" "''Person''"]
    slice_type_resolution [of "ast_Field None [] (ArrayType None (Ident ''Person'')) None None"
      None "''Person''" "''Person''"]
  by (simp add: extractFields_def extractField_unfold extractDocLines_def extractComments_def)

text \<open>
  Claim C4. A field-like unit with \<open>n \<ge> 1\<close> names yields exactly \<open>n\<close> fields, named after
  the declared names in their order, all with the \<open>TypeName\<close>, \<open>IsPointer\<close> and \<open>IsSlice\<close>
  that \<^verbatim>\<open>_extractField\<close> gives the unit; a unit without names yields exactly one field,
  whose name is empty.
\<close>

theorem field_multiplicity:
  "(Names inp \<noteq> [] \<longrightarrow>
      length (extractFields (Some inp)) = length (Names inp) \<and>
      map Field_Name (extractFields (Some inp)) = Names inp \<and>
      (\<forall>f \<in> set (extractFields (Some inp)).
         TypeName f = TypeName (extractField inp) \<and>
         IsPointer f = IsPointer (extractField inp) \<and>
         IsSlice f = IsSlice (extractField inp))) \<and>
   (Names inp = [] \<longrightarrow>
      length (extractFields (Some inp)) = 1 \<and>
      Field_Name (hd (extractFields (Some inp))) = [])"
  by (simp add: extractFields_type) (simp add: extractFields_Some extractField_Name comp_def)

theorem field_multiplicity_witness:
  "extractFields (Some (ast_Field None [''x'', ''y''] (Ident ''T'') None None)) =
     [\<lparr>Field_Name = ''x'', TypeName = ''T'', IsPointer = False, IsSlice = False,
       Field_Tag = [], Field_DocLines = [], CommentLines = []\<rparr>,
      \<lparr>Field_Name = ''y'', TypeName = ''T'', IsPointer = False, IsSlice = False,
       Field_Tag = [], Field_DocLines = [], CommentLines = []\<rparr>] \<and>
   extractFields (Some (ast_Field None [] (Ident ''error'') None None)) =
     [\<lparr>Field_Name = [], TypeName = ''error'', IsPointer = False, IsSlice = False,
       Field_Tag = [], Field_DocLines = [], CommentLines = []\<rparr>]"
  using field_multiplicity [of "ast_Field None [''x'', ''y''] (Ident ''T'') None None"]
    field_multiplicity [of "ast_Field None [] (Ident ''error'') None None"]
  by (simp add: extractFields_def extractField_unfold extractDocLines_def extractComments_def)

text \<open>
  Claim C6. When the type of a field-like unit is no array or slice form, no pointer to
  a plain named type and no plain named type, extraction still returns: every field it
  yields (at least one) has an empty \<open>TypeName\<close> and neither \<open>IsPointer\<close> nor \<open>IsSlice\<close>.
\<close>

theorem type_resolution_fallback:
  "(\<forall>len elt. Type inp \<noteq> ArrayType len elt) \<and> (\<forall>n. Type inp \<noteq> StarExpr (Ident n)) \<and>
   (\<forall>n. Type inp \<noteq> Ident n) \<longrightarrow>
     TypeName (extractField inp) = [] \<and> \<not> IsPointer (extractField inp) \<and>
     \<not> IsSlice (extractField inp) \<and>
     extractFields (Some inp) \<noteq> [] \<and>
     (\<forall>f \<in> set (extractFields (Some inp)). TypeName f = [] \<and> \<not> IsPointer f \<and> \<not> IsSlice f)"
  using extractField_other [of inp] extractFields_nonempty [of inp]
  by (simp add: extractFields_type)

theorem type_resolution_fallback_witness:
  "extractFields (Some (ast_Field None [''m'']
      (MapType (Ident ''string'') (Ident ''int'')) None None)) =
     [\<lparr>Field_Name = ''m'', TypeName = [], IsPointer = False, IsSlice = False,
       Field_Tag = [], Field_DocLines = [], CommentLines = []\<rparr>] \<and>
   extractFields (Some (ast_Field None [''t'']
      (SelectorExpr (Ident ''time'') ''Time'') None None)) =
     [\<lparr>Field_Name = ''t'', TypeName = [], IsPointer = False, IsSlice = False,
       Field_Tag = [], Field_DocLines = [], CommentLines = []\<rparr>] \<and>
   extractFields (Some (ast_Field None [''p'']
      (StarExpr (SelectorExpr (Ident ''time'') ''Time'')) None None)) =
     [\<lparr>Field_Name = ''p'', TypeName = [], IsPointer = False, IsSlice = False,
       Field_Tag = [], Field_DocLines = [], CommentLines = []\<rparr>]"
  using type_resolution_fallback [of "ast_Field None [''m'']
        (MapType (Ident ''string'') (Ident ''int'')) None None"]
    type_resolution_fallback [of "ast_Field None [''t'']
        (SelectorExpr (Ident ''time'') ''Time'') None None"]
    type_resolution_fallback [of "ast_Field None [''p'']
        (StarExpr (SelectorExpr (Ident ''time'') ''Time'')) None None"]
  by (simp add: extractFields_def extractField_unfold extractDocLines_def extractComments_def)

section \<open>Properties of the declaration extractors and the walk\<close>

lemma extractors_Nil [simp]:
  "extractPackageName NilNode = ([], False)"
  "extractGenDeclForStruct NilNode = (zeroStruct, False)"
  "extractGenDecForInterface NilNode = (zeroInterface, False)"
  "extractOperation NilNode = (zeroOperation, False)"
  by (simp_all add: extractPackageName_def extractGenDeclForStruct_def
      extractGenDecForInterface_def extractOperation_def)

lemma extractors_File [simp]:
  "extractGenDeclForStruct (FileNode f) = (zeroStruct, False)"
  "extractGenDecForInterface (FileNode f) = (zeroInterface, False)"
  "extractOperation (FileNode f) = (zeroOperation, False)"
  by (simp_all add: extractGenDeclForStruct_def extractGenDecForInterface_def
      extractOperation_def)

lemma extractPackageName_Decl [simp]: "extractPackageName (DeclNode d) = ([], False)"
  by (simp add: extractPackageName_def)

lemma extractPackageName_found: "snd (extractPackageName (FileNode f))"
  by (simp add: extractPackageName_def split: option.splits)

lemma extractors_Other [simp]:
  "extractGenDeclForStruct (DeclNode (OtherNode cs)) = (zeroStruct, False)"
  "extractGenDecForInterface (DeclNode (OtherNode cs)) = (zeroInterface, False)"
  "extractOperation (DeclNode (OtherNode cs)) = (zeroOperation, False)"
  by (simp_all add: extractGenDeclForStruct_def extractGenDecForInterface_def
      extractOperation_def)

lemma extractors_cross [simp]:
  "extractOperation (DeclNode (GenDeclNode gd cs)) = (zeroOperation, False)"
  "extractGenDeclForStruct (DeclNode (FuncDeclNode fd cs)) = (zeroStruct, False)"
  "extractGenDecForInterface (DeclNode (FuncDeclNode fd cs)) = (zeroInterface, False)"
  by (simp_all add: extractGenDeclForStruct_def extractGenDecForInterface_def
      extractOperation_def)

lemma extractOperation_found: "snd (extractOperation (DeclNode (FuncDeclNode fd cs)))"
  by (simp add: extractOperation_def Let_def)

lemma Visit_Nil [simp]: "Visit v NilNode = v"
  by (simp add: Visit_def)

lemma Visit_File:
  "Visit v (FileNode f) = v\<lparr>PackageName := fst (extractPackageName (FileNode f))\<rparr>"
  using extractPackageName_found [of f]
  by (cases "extractPackageName (FileNode f)") (simp add: Visit_def)

lemma Visit_Other [simp]: "Visit v (DeclNode (OtherNode cs)) = v"
  by (simp add: Visit_def)

lemma Visit_GenDecl:
  "Visit v (DeclNode (GenDeclNode gd cs)) =
     v\<lparr>Structs := Structs v @
          (if snd (extractGenDeclForStruct (DeclNode (GenDeclNode gd cs)))
           then [(fst (extractGenDeclForStruct (DeclNode (GenDeclNode gd cs))))
                   \<lparr>Struct_PackageName := PackageName v\<rparr>]
           else []),
        Interfaces := Interfaces v @
          (if snd (extractGenDecForInterface (DeclNode (GenDeclNode gd cs)))
           then [(fst (extractGenDecForInterface (DeclNode (GenDeclNode gd cs))))
                   \<lparr>Interface_PackageName := PackageName v\<rparr>]
           else [])\<rparr>"
  by (cases "extractGenDeclForStruct (DeclNode (GenDeclNode gd cs))";
      cases "extractGenDecForInterface (DeclNode (GenDeclNode gd cs))")
    (simp add: Visit_def)

lemma Visit_FuncDecl:
  "Visit v (DeclNode (FuncDeclNode fd cs)) =
     v\<lparr>Operations := Operations v @
          [(fst (extractOperation (DeclNode (FuncDeclNode fd cs))))
             \<lparr>Operation_PackageName := PackageName v\<rparr>]\<rparr>"
  using extractOperation_found [of fd cs]
  by (cases "extractOperation (DeclNode (FuncDeclNode fd cs))") (simp add: Visit_def)

subsection \<open>Doc lines\<close>











subsection \<open>Package names\<close>

lemma taggedSince_refl: "taggedSince v v"
  by (simp add: taggedSince_def)

lemma taggedSince_trans:
  assumes "taggedSince v v'" and "taggedSince v' v''"
  shows "taggedSince v v''"
proof -
  from assms obtain ss ss' where
    "Structs v' = Structs v @ ss" "\<forall>s \<in> set ss. Struct_PackageName s = PackageName v"
    "Structs v'' = Structs v' @ ss'" "\<forall>s \<in> set ss'. Struct_PackageName s = PackageName v'"
    unfolding taggedSince_def by blast
  moreover from assms obtain ifs ifs' where
    "Interfaces v' = Interfaces v @ ifs"
    "\<forall>s \<in> set ifs. Interface_PackageName s = PackageName v"
    "Interfaces v'' = Interfaces v' @ ifs'"
    "\<forall>s \<in> set ifs'. Interface_PackageName s = PackageName v'"
    unfolding taggedSince_def by blast
  moreover from assms obtain os os' where
    "Operations v' = Operations v @ os"
    "\<forall>s \<in> set os. Operation_PackageName s = PackageName v"
    "Operations v'' = Operations v' @ os'"
    "\<forall>s \<in> set os'. Operation_PackageName s = PackageName v'"
    unfolding taggedSince_def by blast
  moreover from assms have "PackageName v' = PackageName v" "PackageName v'' = PackageName v'"
    unfolding taggedSince_def by simp_all
  ultimately show ?thesis
    unfolding taggedSince_def
    by (intro conjI exI [of _ "ss @ ss'"] exI [of _ "ifs @ ifs'"] exI [of _ "os @ os'"]) auto
qed

lemma taggedSince_Visit: "taggedSince v (Visit v (DeclNode d))"
  by (cases d) (simp_all add: Visit_GenDecl Visit_FuncDecl taggedSince_def)

lemma taggedSince_WalkDecl: "taggedSince v (WalkDecl v d)"
  and taggedSince_WalkList: "taggedSince v (WalkList v ds)"
proof (induction v d and v ds rule: WalkDecl_WalkList.induct)
  case (1 v gd cs)
  have "taggedSince v (Visit v (DeclNode (GenDeclNode gd cs)))"
    by (rule taggedSince_Visit)
  with 1 show ?case
    by (simp add: taggedSince_trans [of v "Visit v (DeclNode (GenDeclNode gd cs))"])
next
  case (2 v fd cs)
  have "taggedSince v (Visit v (DeclNode (FuncDeclNode fd cs)))"
    by (rule taggedSince_Visit)
  with 2 show ?case
    by (simp add: taggedSince_trans [of v "Visit v (DeclNode (FuncDeclNode fd cs))"])
next
  case (3 v cs)
  then show ?case by simp
next
  case (4 v)
  show ?case by (simp add: taggedSince_refl)
next
  case (5 v n ns)
  then show ?case
    by (simp add: taggedSince_trans [of v "WalkDecl v n"])
qed

lemma Walk_tagged:
  "taggedSince (v\<lparr>PackageName := fst (extractPackageName (FileNode f))\<rparr>) (Walk v f)"
  by (simp add: Walk_def Visit_File taggedSince_WalkList)

text \<open>
  Claim C9. Walking a file, from any state of the visitor, leaves the entities
  accumulated before untouched and appends only structs, interfaces and operations whose
  \<open>PackageName\<close> is the package name \<^verbatim>\<open>extractPackageName\<close> recovers from the file node;
  the visitor's current package name is that name afterwards.
\<close>

theorem package_name_propagation:
  "PackageName (Walk v f) = fst (extractPackageName (FileNode f)) \<and>
   take (length (Structs v)) (Structs (Walk v f)) = Structs v \<and>
   (\<forall>s \<in> set (drop (length (Structs v)) (Structs (Walk v f))).
      Struct_PackageName s = fst (extractPackageName (FileNode f))) \<and>
   take (length (Interfaces v)) (Interfaces (Walk v f)) = Interfaces v \<and>
   (\<forall>i \<in> set (drop (length (Interfaces v)) (Interfaces (Walk v f))).
      Interface_PackageName i = fst (extractPackageName (FileNode f))) \<and>
   take (length (Operations v)) (Operations (Walk v f)) = Operations v \<and>
   (\<forall>oper \<in> set (drop (length (Operations v)) (Operations (Walk v f))).
      Operation_PackageName oper = fst (extractPackageName (FileNode f)))"
  using Walk_tagged [where v = v and f = f] unfolding taggedSince_def by auto

theorem package_name_propagation_witness:
  "fst (extractPackageName (FileNode serviceTestFile)) = ''operations_test'' \<and>
   map Struct_PackageName (Structs (Walk zeroAstVisitor serviceFile)) =
     [''operations'', ''operations''] \<and>
   length (Structs (Walk (Walk zeroAstVisitor serviceFile) serviceTestFile)) = 3 \<and>
   Struct_PackageName (Structs (Walk (Walk zeroAstVisitor serviceFile) serviceTestFile) ! 2) =
     ''operations_test'' \<and>
   take 2 (Structs (Walk (Walk zeroAstVisitor serviceFile) serviceTestFile)) =
     Structs (Walk zeroAstVisitor serviceFile)"
proof -
  note inst = package_name_propagation
    [where v = "Walk zeroAstVisitor serviceFile" and f = serviceTestFile]
  have name: "fst (extractPackageName (FileNode serviceTestFile)) = ''operations_test''"
    by code_simp
  have before: "map Struct_PackageName (Structs (Walk zeroAstVisitor serviceFile)) =
      [''operations'', ''operations'']"
    by code_simp
  have len: "length (Structs (Walk zeroAstVisitor serviceFile)) = 2"
    by code_simp
  have len': "length (Structs (Walk (Walk zeroAstVisitor serviceFile) serviceTestFile)) = 3"
    by code_simp
  from inst have old: "take 2 (Structs (Walk (Walk zeroAstVisitor serviceFile) serviceTestFile))
      = Structs (Walk zeroAstVisitor serviceFile)"
    by (simp add: len)
  from inst have new: "\<forall>s \<in> set (drop 2
        (Structs (Walk (Walk zeroAstVisitor serviceFile) serviceTestFile))).
      Struct_PackageName s = ''operations_test''"
    by (simp add: len name)
  have "drop 2 (Structs (Walk (Walk zeroAstVisitor serviceFile) serviceTestFile)) \<noteq> []"
    by (simp add: len')
  then have "hd (drop 2 (Structs (Walk (Walk zeroAstVisitor serviceFile) serviceTestFile)))
      \<in> set (drop 2 (Structs (Walk (Walk zeroAstVisitor serviceFile) serviceTestFile)))"
    by (rule hd_in_set)
  with new have "Struct_PackageName
      (hd (drop 2 (Structs (Walk (Walk zeroAstVisitor serviceFile) serviceTestFile)))) =
      ''operations_test''"
    by blast
  then have third: "Struct_PackageName
      (Structs (Walk (Walk zeroAstVisitor serviceFile) serviceTestFile) ! 2) =
      ''operations_test''"
    by (simp add: hd_drop_conv_nth len')
  from name before len' third old show ?thesis
    by (intro conjI)
qed

subsection \<open>Grouped type declarations\<close>

lemma extractSpecsForStruct_Cons:
  "extractSpecsForStruct (s # rest) = extractSpecsForStruct [s]"
  by (simp add: extractSpecsForStruct_def)

lemma extractSpecsForInterface_Cons:
  "extractSpecsForInterface (s # rest) = extractSpecsForInterface [s]"
  by (simp add: extractSpecsForInterface_def)

lemma extractSpecsForStruct_not_found:
  assumes "\<forall>d n fl. s \<noteq> TypeSpec d n (StructType fl)"
  shows "\<not> snd (extractSpecsForStruct (s # rest))"
proof (cases s)
  case (TypeSpec d n t)
  with assms show ?thesis
    by (cases t) (simp_all add: extractSpecsForStruct_def)
qed (simp_all add: extractSpecsForStruct_def)

lemma extractSpecsForInterface_not_found:
  assumes "\<forall>d n ms. s \<noteq> TypeSpec d n (InterfaceType ms)"
  shows "\<not> snd (extractSpecsForInterface (s # rest))"
proof (cases s)
  case (TypeSpec d n t)
  with assms show ?thesis
    by (cases t) (simp_all add: extractSpecsForInterface_def)
qed (simp_all add: extractSpecsForInterface_def)

lemma struct_found_iff:
  "snd (extractGenDeclForStruct (DeclNode (GenDeclNode gd cs))) =
     snd (extractSpecsForStruct (Specs gd))"
  by (simp add: extractGenDeclForStruct_def split: prod.splits)

lemma interface_found_iff:
  "snd (extractGenDecForInterface (DeclNode (GenDeclNode gd cs))) =
     snd (extractSpecsForInterface (Specs gd))"
  by (simp add: extractGenDecForInterface_def split: prod.splits)

lemma not_struct_and_interface:
  "\<not> (snd (extractSpecsForStruct specs) \<and> snd (extractSpecsForInterface specs))"
proof (cases specs)
  case Nil
  then show ?thesis by (simp add: extractSpecsForStruct_def)
next
  case (Cons s rest)
  show ?thesis
  proof (cases "\<exists>d n fl. s = TypeSpec d n (StructType fl)")
    case True
    then have "\<forall>d n ms. s \<noteq> TypeSpec d n (InterfaceType ms)" by auto
    then show ?thesis
      using extractSpecsForInterface_not_found [of s rest] Cons by simp
  next
    case False
    then show ?thesis
      using extractSpecsForStruct_not_found [of s rest] Cons by simp
  qed
qed

lemma Visit_adds_at_most_one:
  "length (Structs (Visit v node)) + length (Interfaces (Visit v node)) +
     length (Operations (Visit v node)) \<le>
   length (Structs v) + length (Interfaces v) + length (Operations v) + 1"
proof (cases node)
  case NilNode
  then show ?thesis by simp
next
  case (FileNode f)
  then show ?thesis by (simp add: Visit_File)
next
  case (DeclNode d)
  show ?thesis
  proof (cases d)
    case (GenDeclNode gd cs)
    with DeclNode show ?thesis
      using not_struct_and_interface [of "Specs gd"]
      by (simp add: Visit_GenDecl struct_found_iff interface_found_iff)
  next
    case (FuncDeclNode fd cs)
    with DeclNode show ?thesis by (simp add: Visit_FuncDecl)
  next
    case (OtherNode cs)
    with DeclNode show ?thesis by simp
  qed
qed

text \<open>
  Claim C10. Of the specs of a declaration node only the first is examined: the outcome
  of struct and of interface extraction is that for the first spec alone; when the first
  spec is not a struct type (an interface type) nothing is found and \<^verbatim>\<open>Visit\<close>
  appends no struct (no interface) for the node, whatever the later specs are; and one
  visit of a node adds at most one entity in all.
\<close>

theorem first_spec_only:
  "extractSpecsForStruct (s # rest) = extractSpecsForStruct [s] \<and>
   extractSpecsForInterface (s # rest) = extractSpecsForInterface [s] \<and>
   ((\<forall>d n fl. s \<noteq> TypeSpec d n (StructType fl)) \<longrightarrow>
      \<not> snd (extractSpecsForStruct (s # rest)) \<and>
      Structs (Visit v (DeclNode (GenDeclNode \<lparr>GenDecl_Doc = doc, Specs = s # rest\<rparr> cs))) =
        Structs v) \<and>
   ((\<forall>d n ms. s \<noteq> TypeSpec d n (InterfaceType ms)) \<longrightarrow>
      \<not> snd (extractSpecsForInterface (s # rest)) \<and>
      Interfaces (Visit v (DeclNode (GenDeclNode \<lparr>GenDecl_Doc = doc, Specs = s # rest\<rparr> cs))) =
        Interfaces v) \<and>
   length (Structs (Visit v node)) + length (Interfaces (Visit v node)) +
     length (Operations (Visit v node)) \<le>
   length (Structs v) + length (Interfaces v) + length (Operations v) + 1"
  using extractSpecsForStruct_not_found [of s rest] extractSpecsForInterface_not_found [of s rest]
    Visit_adds_at_most_one [of v node]
  by (simp add: extractSpecsForStruct_Cons [of s rest] extractSpecsForInterface_Cons [of s rest]
      Visit_GenDecl struct_found_iff interface_found_iff)

theorem first_spec_only_witness:
  "\<not> snd (extractSpecsForStruct
       [TypeSpec None ''Id'' (Ident ''string''), TypeSpec None ''Person'' (StructType (Some []))]) \<and>
   Structs (Visit zeroAstVisitor (DeclNode (GenDeclNode \<lparr>GenDecl_Doc = None, Specs =
       [TypeSpec None ''Id'' (Ident ''string''), TypeSpec None ''Person'' (StructType (Some []))]\<rparr> []))) =
     [] \<and>
   \<not> snd (extractSpecsForInterface
       [TypeSpec None ''Person'' (StructType (Some [])), TypeSpec None ''Getter'' (InterfaceType [])]) \<and>
   map Struct_Name (Structs (Visit zeroAstVisitor (DeclNode (GenDeclNode \<lparr>GenDecl_Doc = None,
       Specs = [TypeSpec None ''Person'' (StructType (Some [])),
                TypeSpec None ''Other'' (StructType (Some []))]\<rparr> [])))) = [''Person'']"
proof -
  have a: "\<forall>d n fl. TypeSpec None ''Id'' (Ident ''string'') \<noteq> TypeSpec d n (StructType fl)"
    by simp
  have b: "\<forall>d n ms. TypeSpec None ''Person'' (StructType (Some [])) \<noteq> TypeSpec d n (InterfaceType ms)"
    by simp
  have c: "map Struct_Name (Structs (Visit zeroAstVisitor (DeclNode (GenDeclNode
       \<lparr>GenDecl_Doc = None,
        Specs = [TypeSpec None ''Person'' (StructType (Some [])),
                 TypeSpec None ''Other'' (StructType (Some []))]\<rparr> [])))) = [''Person'']"
    by code_simp
  have z: "Structs zeroAstVisitor = []"
    by (simp add: zeroAstVisitor_def)
  from a first_spec_only [where s = "TypeSpec None ''Id'' (Ident ''string'')"
      and rest = "[TypeSpec None ''Person'' (StructType (Some []))]" and v = zeroAstVisitor
      and doc = None and cs = "[]" and node = NilNode]
  have d: "\<not> snd (extractSpecsForStruct
       [TypeSpec None ''Id'' (Ident ''string''), TypeSpec None ''Person'' (StructType (Some []))])"
    and e: "Structs (Visit zeroAstVisitor (DeclNode (GenDeclNode \<lparr>GenDecl_Doc = None, Specs =
       [TypeSpec None ''Id'' (Ident ''string''), TypeSpec None ''Person'' (StructType (Some []))]\<rparr> []))) =
     Structs zeroAstVisitor"
    by blast+
  from b first_spec_only [where s = "TypeSpec None ''Person'' (StructType (Some []))"
      and rest = "[TypeSpec None ''Getter'' (InterfaceType [])]" and v = zeroAstVisitor
      and doc = None and cs = "[]" and node = NilNode]
  have f: "\<not> snd (extractSpecsForInterface
       [TypeSpec None ''Person'' (StructType (Some [])), TypeSpec None ''Getter'' (InterfaceType [])])"
    by blast
  from d e [unfolded z] f c show ?thesis
    by (intro conjI)
qed

section \<open>Properties of the directory scan\<close>

lemma go_ParseDir_step_error:
  "snd (go_ParseDir_step path accept (pkgs, Some e) d) = Some e"
  by (simp add: go_ParseDir_step_def split: sum.splits)

lemma go_ParseDir_fold_error:
  "snd (foldl (go_ParseDir_step path accept) (pkgs, Some e) es) = Some e"
proof (induction es arbitrary: pkgs)
  case Nil
  show ?case by simp
next
  case (Cons d es)
  obtain pkgs' where "go_ParseDir_step path accept (pkgs, Some e) d = (pkgs', Some e)"
    using go_ParseDir_step_error [of path accept pkgs e d]
    by (cases "go_ParseDir_step path accept (pkgs, Some e) d") simp
  with Cons.IH [of pkgs'] show ?case by simp
qed

lemma go_ParseDir_step_None:
  "snd (go_ParseDir_step path accept (pkgs, None) d) =
     (if selectedBy accept d \<and> isl (Entry_Parse d) then Some (projl (Entry_Parse d)) else None)"
  by (cases "Entry_Parse d") (simp_all add: go_ParseDir_step_def selectedBy_def)

lemma go_ParseDir_fold_first:
  "snd (foldl (go_ParseDir_step path accept) (pkgs, None) es) =
     map_option (\<lambda>d. projl (Entry_Parse d))
       (find (\<lambda>d. selectedBy accept d \<and> isl (Entry_Parse d)) es)"
proof (induction es arbitrary: pkgs)
  case Nil
  show ?case by simp
next
  case (Cons d es)
  obtain pkgs' first where step: "go_ParseDir_step path accept (pkgs, None) d = (pkgs', first)"
    by (cases "go_ParseDir_step path accept (pkgs, None) d")
  with go_ParseDir_step_None [of path accept pkgs d]
  have first: "first =
      (if selectedBy accept d \<and> isl (Entry_Parse d) then Some (projl (Entry_Parse d)) else None)"
    by simp
  show ?case
  proof (cases "selectedBy accept d \<and> isl (Entry_Parse d)")
    case True
    with step first show ?thesis
      by (simp add: go_ParseDir_fold_error)
  next
    case False
    with step first Cons.IH [of pkgs'] show ?thesis
      by auto
  qed
qed

lemma ParseSourceDir_Listing:
  "ParseSourceDir ord dirName (Some pattern) (Listing entries) =
     (case find (\<lambda>d. selectedBy pattern d \<and> isl (Entry_Parse d)) entries of
        Some d \<Rightarrow> Inl (Error (projl (Entry_Parse d)))
      | None \<Rightarrow>
          Inr (crossLink (walkPackages ord zeroAstVisitor
            (fst (go_ParseDir dirName pattern (Listing entries))))))"
proof -
  obtain packages err where
    res: "foldl (go_ParseDir_step dirName pattern) ([], None) entries = (packages, err)"
    by (cases "foldl (go_ParseDir_step dirName pattern) ([], None) entries")
  with go_ParseDir_fold_first [of dirName pattern "[]" entries]
  have "err = map_option (\<lambda>d. projl (Entry_Parse d))
      (find (\<lambda>d. selectedBy pattern d \<and> isl (Entry_Parse d)) entries)"
    by simp
  with res show ?thesis
    by (simp add: ParseSourceDir_def parseDir_def go_ParseDir_def split: option.splits)
qed

lemma isMapOrder_listingOrder: "isMapOrder listingOrder"
  by (simp add: isMapOrder_def listingOrder_def)

lemma isMapOrder_reverseOrder: "isMapOrder reverseOrder"
  by (simp add: isMapOrder_def reverseOrder_def)

text \<open>
  Claim C2. When some file that the directory scan selects (a non-directory entry whose
  name ends in \<^verbatim>\<open>.go\<close> and matches the pattern) fails to parse, \<^verbatim>\<open>ParseSourceDir\<close> returns
  an error and no visitor at all: the error is the syntax error of the first selected
  file that fails, whatever the other files are and in whatever order maps are ranged
  over.
\<close>

theorem all_or_nothing:
  "d \<in> set entries \<and> selectedBy pattern d \<and> Entry_Parse d = Inl err \<longrightarrow>
     (\<exists>d0 e. find (\<lambda>d. selectedBy pattern d \<and> isl (Entry_Parse d)) entries = Some d0 \<and>
        Entry_Parse d0 = Inl e \<and>
        ParseSourceDir ord dirName (Some pattern) (Listing entries) = Inl (Error e))"
proof
  assume a: "d \<in> set entries \<and> selectedBy pattern d \<and> Entry_Parse d = Inl err"
  then have "\<exists>x \<in> set entries. selectedBy pattern x \<and> isl (Entry_Parse x)"
    by (intro bexI [of _ d]) simp_all
  then obtain d0
    where d0: "find (\<lambda>d. selectedBy pattern d \<and> isl (Entry_Parse d)) entries = Some d0"
    by (cases "find (\<lambda>d. selectedBy pattern d \<and> isl (Entry_Parse d)) entries")
      (auto simp: find_None_iff)
  then have "isl (Entry_Parse d0)"
    by (auto simp: find_Some_iff)
  then obtain e where e: "Entry_Parse d0 = Inl e"
    by (cases "Entry_Parse d0") simp_all
  with d0 have "ParseSourceDir ord dirName (Some pattern) (Listing entries) = Inl (Error e)"
    by (simp add: ParseSourceDir_Listing)
  with d0 e show "\<exists>d0 e.
      find (\<lambda>d. selectedBy pattern d \<and> isl (Entry_Parse d)) entries = Some d0 \<and>
      Entry_Parse d0 = Inl e \<and>
      ParseSourceDir ord dirName (Some pattern) (Listing entries) = Inl (Error e)"
    by blast
qed

theorem all_or_nothing_witness:
  "selectedBy (\<lambda>fiName. True) brokenEntry \<and>
   Entry_Parse brokenEntry = Inl ''broken.go:1:1: expected declaration'' \<and>
   ParseSourceDir reverseOrder ''./operations'' (Some (\<lambda>fiName. True))
       (Listing [serviceEntry, brokenEntry, serviceTestEntry]) =
     Inl (Error ''broken.go:1:1: expected declaration'')"
proof -
  have sel: "selectedBy (\<lambda>fiName. True) brokenEntry"
    by (simp add: selectedBy_def brokenEntry_def hasSuffix_def)
  have err: "Entry_Parse brokenEntry = Inl ''broken.go:1:1: expected declaration''"
    by (simp add: brokenEntry_def)
  have mem: "brokenEntry \<in> set [serviceEntry, brokenEntry, serviceTestEntry]"
    by simp
  have fst: "find (\<lambda>d. selectedBy (\<lambda>fiName. True) d \<and> isl (Entry_Parse d))
      [serviceEntry, brokenEntry, serviceTestEntry] = Some brokenEntry"
    by (simp add: selectedBy_def brokenEntry_def serviceEntry_def hasSuffix_def)
  from mem sel err all_or_nothing [where d = brokenEntry and pattern = "\<lambda>fiName. True"
      and entries = "[serviceEntry, brokenEntry, serviceTestEntry]"
      and err = "''broken.go:1:1: expected declaration''" and dirName = "''./operations''"
      and ord = reverseOrder]
  obtain d0 e where
    "find (\<lambda>d. selectedBy (\<lambda>fiName. True) d \<and> isl (Entry_Parse d))
      [serviceEntry, brokenEntry, serviceTestEntry] = Some d0"
    "Entry_Parse d0 = Inl e"
    "ParseSourceDir reverseOrder ''./operations'' (Some (\<lambda>fiName. True))
       (Listing [serviceEntry, brokenEntry, serviceTestEntry]) = Inl (Error e)"
    by blast
  with fst err have "ParseSourceDir reverseOrder ''./operations'' (Some (\<lambda>fiName. True))
       (Listing [serviceEntry, brokenEntry, serviceTestEntry]) =
     Inl (Error ''broken.go:1:1: expected declaration'')"
    by simp
  with sel err show ?thesis
    by (intro conjI)
qed

section \<open>Properties of the validators\<close>

lemma restOperation_contract:
  "validateRestOperationAnnotation annot \<longleftrightarrow>
     Annotation_Name annot = typeRestOperation \<and>
     list_all (presentNonEmpty annot) requiredOfRestOperation"
  by (auto simp: validateRestOperationAnnotation_def index2_def presentNonEmpty_def
      requiredOfRestOperation_def split: option.splits)

lemma restService_accepts:
  "validateRestServiceAnnotation annot \<longleftrightarrow>
     Annotation_Name annot = typeRestService \<and> Attributes annot paramPath \<noteq> None"
  by (auto simp: validateRestServiceAnnotation_def index2_def split: option.splits)

text \<open>
  Claim C5. A validator is to accept only an annotation of its own name in which every
  required attribute is present and non-empty; in particular the validator of
  \<^verbatim>\<open>RestService\<close> is to reject an empty \<^verbatim>\<open>path\<close>. The validator of \<^verbatim>\<open>RestOperation\<close> does
  so (\<open>restOperation_contract\<close>), but \<^verbatim>\<open>validateRestServiceAnnotation\<close> tests only that
  \<^verbatim>\<open>path\<close> is present: it accepts the annotation \<^verbatim>\<open>RestService\<close> whose \<^verbatim>\<open>path\<close> is the
  empty string, although the required attribute is not a non-empty string there.
\<close>

theorem restService_accepts_empty_path:
  "validateRestServiceAnnotation
     \<lparr>Annotation_Name = ''RestService'', Attributes = [''path'' \<mapsto> []]\<rparr> \<and>
   \<not> list_all (presentNonEmpty
       \<lparr>Annotation_Name = ''RestService'', Attributes = [''path'' \<mapsto> []]\<rparr>)
     requiredOfRestService \<and>
   \<not> validateRestOperationAnnotation
     \<lparr>Annotation_Name = ''RestOperation'',
      Attributes = [''path'' \<mapsto> [], ''method'' \<mapsto> ''GET'']\<rparr>"
  by (simp add: validateRestServiceAnnotation_def validateRestOperationAnnotation_def
      index2_def presentNonEmpty_def requiredOfRestService_def typeRestService_def
      typeRestOperation_def paramPath_def paramMethod_def)

section \<open>Properties of cross-linking\<close>

lemma allStructs_prefix_Some:
  "foldl (\<lambda>allStructs idx. allStructs(Struct_Name (ss ! idx) \<mapsto> idx)) Map.empty [0..<k] n
      = Some i \<longleftrightarrow>
   i < k \<and> Struct_Name (ss ! i) = n \<and> (\<forall>j. i < j \<and> j < k \<longrightarrow> Struct_Name (ss ! j) \<noteq> n)"
proof (induction k)
  case 0
  show ?case by simp
next
  case (Suc k)
  show ?case
  proof (cases "Struct_Name (ss ! k) = n")
    case True
    have "(i = k) = (i < Suc k \<and> Struct_Name (ss ! i) = n \<and>
        (\<forall>j. i < j \<and> j < Suc k \<longrightarrow> Struct_Name (ss ! j) \<noteq> n))"
      using True by (auto simp: less_Suc_eq)
    with True show ?thesis by auto
  next
    case False
    have "(i < k \<and> Struct_Name (ss ! i) = n \<and>
        (\<forall>j. i < j \<and> j < k \<longrightarrow> Struct_Name (ss ! j) \<noteq> n)) =
      (i < Suc k \<and> Struct_Name (ss ! i) = n \<and>
        (\<forall>j. i < j \<and> j < Suc k \<longrightarrow> Struct_Name (ss ! j) \<noteq> n))"
      using False by (auto simp: less_Suc_eq)
    with False Suc.IH show ?thesis by simp
  qed
qed

lemma allStructs_prefix_None:
  "foldl (\<lambda>allStructs idx. allStructs(Struct_Name (ss ! idx) \<mapsto> idx)) Map.empty [0..<k] n
      = None \<longleftrightarrow> (\<forall>j < k. Struct_Name (ss ! j) \<noteq> n)"
proof (induction k)
  case 0
  show ?case by simp
next
  case (Suc k)
  then show ?case by (auto simp: less_Suc_eq)
qed

lemma allStructsOf_Some_iff:
  "allStructsOf ss n = Some i \<longleftrightarrow>
     i < length ss \<and> Struct_Name (ss ! i) = n \<and>
     (\<forall>j. i < j \<and> j < length ss \<longrightarrow> Struct_Name (ss ! j) \<noteq> n)"
  unfolding allStructsOf_def by (rule allStructs_prefix_Some)

lemma allStructsOf_None_iff:
  "allStructsOf ss n = None \<longleftrightarrow> (\<forall>s \<in> set ss. Struct_Name s \<noteq> n)"
  unfolding allStructsOf_def allStructs_prefix_None by (simp add: all_set_conv_all_nth)

lemma linkOperation_length [simp]: "length (linkOperation m ss oper) = length ss"
  by (simp add: linkOperation_def split: option.splits)

lemma linkOperation_nth:
  assumes "i < length ss"
  shows "linkOperation m ss oper ! i =
    (ss ! i)\<lparr>Struct_Operations :=
      Struct_Operations (ss ! i) @ (if linksTo m i oper then [oper] else [])\<rparr>"
proof (cases "RelatedStruct oper")
  case None
  then show ?thesis by (simp add: linkOperation_def linksTo_def)
next
  case (Some rs)
  show ?thesis
  proof (cases "m (TypeName rs)")
    case None
    with Some show ?thesis by (simp add: linkOperation_def linksTo_def)
  next
    case (Some found)
    with \<open>RelatedStruct oper = Some rs\<close> assms show ?thesis
      by (cases "found = i") (simp_all add: linkOperation_def linksTo_def)
  qed
qed

lemma linkOperation_skip:
  assumes "RelatedStruct oper = Some rs" and "m (TypeName rs) = None"
  shows "linkOperation m ss oper = ss"
  using assms by (simp add: linkOperation_def)

lemma linkOperations_length [simp]: "length (foldl (linkOperation m) ss opers) = length ss"
  by (induction opers arbitrary: ss) simp_all

lemma linkOperations_nth:
  "i < length ss \<Longrightarrow>
     foldl (linkOperation m) ss opers ! i =
       (ss ! i)\<lparr>Struct_Operations := Struct_Operations (ss ! i) @ filter (linksTo m i) opers\<rparr>"
proof (induction opers arbitrary: ss)
  case Nil
  show ?case by simp
next
  case (Cons oper opers)
  from Cons.prems have "i < length (linkOperation m ss oper)" by simp
  from Cons.IH [OF this] Cons.prems show ?case
    by (simp add: linkOperation_nth)
qed

lemma crossLink_other [simp]:
  "Operations (crossLink v) = Operations v"
  "Interfaces (crossLink v) = Interfaces v"
  "PackageName (crossLink v) = PackageName v"
  "length (Structs (crossLink v)) = length (Structs v)"
  by (simp_all add: crossLink_def)

lemma crossLink_nth:
  "i < length (Structs v) \<Longrightarrow>
     Structs (crossLink v) ! i =
       (Structs v ! i)\<lparr>Struct_Operations := Struct_Operations (Structs v ! i) @
          filter (linksTo (allStructsOf (Structs v)) i) (Operations v)\<rparr>"
  by (simp add: crossLink_def linkOperations_nth)

lemma linksTo_name:
  assumes "linksTo (allStructsOf ss) i oper"
  shows "\<exists>rs. RelatedStruct oper = Some rs \<and> TypeName rs = Struct_Name (ss ! i)"
proof (cases "RelatedStruct oper")
  case None
  with assms show ?thesis by (simp add: linksTo_def)
next
  case (Some rs)
  with assms have "allStructsOf ss (TypeName rs) = Some i"
    by (simp add: linksTo_def)
  then have "Struct_Name (ss ! i) = TypeName rs"
    by (simp add: allStructsOf_Some_iff)
  with Some show ?thesis by simp
qed

lemma last_struct_exists:
  assumes "s \<in> set ss" and "Struct_Name s = n"
  shows "\<exists>i. allStructsOf ss n = Some i"
proof (cases "allStructsOf ss n")
  case None
  with assms show ?thesis by (simp add: allStructsOf_None_iff)
next
  case (Some i)
  then show ?thesis by simp
qed

lemma crossLink_skip:
  assumes "Operations v = before @ oper # after" and "RelatedStruct oper = Some rs"
    and "\<forall>s \<in> set (Structs v). Struct_Name s \<noteq> TypeName rs"
  shows "Structs (crossLink v) = Structs (crossLink (v\<lparr>Operations := before @ after\<rparr>))"
proof -
  from assms(3) have "allStructsOf (Structs v) (TypeName rs) = None"
    by (simp add: allStructsOf_None_iff)
  with assms(2) have "\<And>ss. linkOperation (allStructsOf (Structs v)) ss oper = ss"
    by (rule linkOperation_skip)
  with assms(1) show ?thesis
    by (simp add: crossLink_def Let_def)
qed

lemma crossLink_linked:
  assumes "oper \<in> set (Operations v)" and "RelatedStruct oper = Some rs"
    and "allStructsOf (Structs v) (TypeName rs) = Some i"
  shows "oper \<in> set (Struct_Operations (Structs (crossLink v) ! i))"
proof -
  from assms(3) have "i < length (Structs v)"
    by (simp add: allStructsOf_Some_iff)
  moreover from assms(2,3) have "linksTo (allStructsOf (Structs v)) i oper"
    by (simp add: linksTo_def)
  ultimately show ?thesis
    using assms(1) by (simp add: crossLink_nth)
qed

lemma crossLink_name:
  "i < length (Structs v) \<Longrightarrow>
     Struct_Name (Structs (crossLink v) ! i) = Struct_Name (Structs v ! i)"
  by (simp add: crossLink_nth)

lemma crossLink_names: "map Struct_Name (Structs (crossLink v)) = map Struct_Name (Structs v)"
  by (rule nth_equalityI) (simp_all add: crossLink_name)

lemma distinct_names_last:
  assumes "distinct (map Struct_Name ss)" and "i < length ss"
  shows "allStructsOf ss (Struct_Name (ss ! i)) = Some i"
proof -
  have "\<forall>j. i < j \<and> j < length ss \<longrightarrow> Struct_Name (ss ! j) \<noteq> Struct_Name (ss ! i)"
  proof (intro allI impI)
    fix j
    assume "i < j \<and> j < length ss"
    with assms have "map Struct_Name ss ! j \<noteq> map Struct_Name ss ! i"
      by (simp add: nth_eq_iff_index_eq del: nth_map)
    with \<open>i < j \<and> j < length ss\<close> assms(2) show "Struct_Name (ss ! j) \<noteq> Struct_Name (ss ! i)"
      by simp
  qed
  with assms(2) show ?thesis
    by (simp add: allStructsOf_Some_iff)
qed

lemma crossLink_added:
  assumes "i < length (Structs v)"
    and "e \<in> set (Struct_Operations (Structs (crossLink v) ! i))"
  shows "e \<in> set (Struct_Operations (Structs v ! i)) \<or>
    (e \<in> set (Operations v) \<and>
     (\<exists>rs. RelatedStruct e = Some rs \<and> TypeName rs = Struct_Name (Structs v ! i)))"
  using assms linksTo_name [of "Structs v" i e]
  by (auto simp: crossLink_nth)

lemma crossLink_earlier:
  assumes "i < j" and "j < length (Structs v)"
    and "Struct_Name (Structs v ! j) = Struct_Name (Structs v ! i)"
  shows "Structs (crossLink v) ! i = Structs v ! i"
proof -
  have "\<not> linksTo (allStructsOf (Structs v)) i e" for e
  proof
    assume "linksTo (allStructsOf (Structs v)) i e"
    then obtain rs where "RelatedStruct e = Some rs"
      and "allStructsOf (Structs v) (TypeName rs) = Some i"
      by (cases "RelatedStruct e") (simp_all add: linksTo_def)
    then have "Struct_Name (Structs v ! i) = TypeName rs"
      and "\<forall>k. i < k \<and> k < length (Structs v) \<longrightarrow> Struct_Name (Structs v ! k) \<noteq> TypeName rs"
      by (simp_all add: allStructsOf_Some_iff)
    with assms show False
      by auto
  qed
  then have "filter (linksTo (allStructsOf (Structs v)) i) (Operations v) = []"
    by (simp add: filter_empty_conv)
  moreover from assms have "i < length (Structs v)"
    by simp
  ultimately show ?thesis
    by (simp add: crossLink_nth)
qed

lemma last_struct_linked:
  "oper \<in> set (Operations v) \<and> RelatedStruct oper = Some rs \<longrightarrow>
     ((\<exists>s \<in> set (Structs v). Struct_Name s = TypeName rs) \<longrightarrow>
        (\<exists>i < length (Structs v).
           Struct_Name (Structs (crossLink v) ! i) = TypeName rs \<and>
           (\<forall>j. i < j \<and> j < length (Structs v) \<longrightarrow>
              Struct_Name (Structs (crossLink v) ! j) \<noteq> TypeName rs) \<and>
           oper \<in> set (Struct_Operations (Structs (crossLink v) ! i)))) \<and>
     (distinct (map Struct_Name (Structs v)) \<longrightarrow>
        (\<forall>i < length (Structs v).
           Struct_Name (Structs (crossLink v) ! i) = TypeName rs \<longrightarrow>
           oper \<in> set (Struct_Operations (Structs (crossLink v) ! i)))) \<and>
     ((\<forall>s \<in> set (Structs v). Struct_Name s \<noteq> TypeName rs) \<longrightarrow>
        (\<forall>before after. Operations v = before @ oper # after \<longrightarrow>
           Structs (crossLink v) = Structs (crossLink (v\<lparr>Operations := before @ after\<rparr>))) \<and>
        (\<forall>i < length (Structs v).
           oper \<in> set (Struct_Operations (Structs (crossLink v) ! i)) \<longrightarrow>
           oper \<in> set (Struct_Operations (Structs v ! i))))"
proof (intro impI, elim conjE, intro conjI impI)
  assume mem: "oper \<in> set (Operations v)" and rs: "RelatedStruct oper = Some rs"
  {
    assume "\<exists>s \<in> set (Structs v). Struct_Name s = TypeName rs"
    then obtain i where i: "allStructsOf (Structs v) (TypeName rs) = Some i"
      using last_struct_exists by blast
    then have "i < length (Structs v)" and "Struct_Name (Structs v ! i) = TypeName rs"
      and "\<forall>j. i < j \<and> j < length (Structs v) \<longrightarrow> Struct_Name (Structs v ! j) \<noteq> TypeName rs"
      by (simp_all add: allStructsOf_Some_iff)
    moreover from mem rs i
    have "oper \<in> set (Struct_Operations (Structs (crossLink v) ! i))"
      by (rule crossLink_linked)
    ultimately show "\<exists>i < length (Structs v).
        Struct_Name (Structs (crossLink v) ! i) = TypeName rs \<and>
        (\<forall>j. i < j \<and> j < length (Structs v) \<longrightarrow>
           Struct_Name (Structs (crossLink v) ! j) \<noteq> TypeName rs) \<and>
        oper \<in> set (Struct_Operations (Structs (crossLink v) ! i))"
      by (intro exI [of _ i]) (simp add: crossLink_name)
  }
  {
    assume d: "distinct (map Struct_Name (Structs v))"
    show "\<forall>i < length (Structs v).
        Struct_Name (Structs (crossLink v) ! i) = TypeName rs \<longrightarrow>
        oper \<in> set (Struct_Operations (Structs (crossLink v) ! i))"
    proof (intro allI impI)
      fix i
      assume i: "i < length (Structs v)"
        and "Struct_Name (Structs (crossLink v) ! i) = TypeName rs"
      then have "Struct_Name (Structs v ! i) = TypeName rs"
        by (simp add: crossLink_name)
      with distinct_names_last [OF d i]
      have "allStructsOf (Structs v) (TypeName rs) = Some i"
        by simp
      with mem rs show "oper \<in> set (Struct_Operations (Structs (crossLink v) ! i))"
        by (rule crossLink_linked)
    qed
  }
  {
    assume none: "\<forall>s \<in> set (Structs v). Struct_Name s \<noteq> TypeName rs"
    show "\<forall>before after. Operations v = before @ oper # after \<longrightarrow>
        Structs (crossLink v) = Structs (crossLink (v\<lparr>Operations := before @ after\<rparr>))"
      using crossLink_skip [OF _ rs none] by blast
    show "\<forall>i < length (Structs v).
        oper \<in> set (Struct_Operations (Structs (crossLink v) ! i)) \<longrightarrow>
        oper \<in> set (Struct_Operations (Structs v ! i))"
    proof (intro allI impI)
      fix i
      assume i: "i < length (Structs v)"
        and "oper \<in> set (Struct_Operations (Structs (crossLink v) ! i))"
      from crossLink_added [OF this] rs none i
      show "oper \<in> set (Struct_Operations (Structs v ! i))"
        by auto
    qed
  }
qed

text \<open>
  Claim C1, as the code has it. \<^verbatim>\<open>ParseSourceDir\<close> returns \<open>crossLink v\<close> for the visitor
  \<open>v\<close> that walked the files. For an operation of the harvest with a receiver: if some
  struct has the receiver's type name, the last struct of that name in the harvest (the
  one the lookup table keeps) has the operation in its \<open>Operations\<close>; so when struct names
  are distinct, every struct of that name has it. If no struct has that name, the pass
  gives the same structs as without the operation, and adds the operation to no struct.
  A struct that a later struct of the same name follows receives nothing: the pass
  leaves it as it is.
\<close>

theorem receiver_linkage:
  "(oper \<in> set (Operations v) \<and> RelatedStruct oper = Some rs \<longrightarrow>
     ((\<exists>s \<in> set (Structs v). Struct_Name s = TypeName rs) \<longrightarrow>
        (\<exists>i < length (Structs v).
           Struct_Name (Structs (crossLink v) ! i) = TypeName rs \<and>
           (\<forall>j. i < j \<and> j < length (Structs v) \<longrightarrow>
              Struct_Name (Structs (crossLink v) ! j) \<noteq> TypeName rs) \<and>
           oper \<in> set (Struct_Operations (Structs (crossLink v) ! i)))) \<and>
     (distinct (map Struct_Name (Structs v)) \<longrightarrow>
        (\<forall>i < length (Structs v).
           Struct_Name (Structs (crossLink v) ! i) = TypeName rs \<longrightarrow>
           oper \<in> set (Struct_Operations (Structs (crossLink v) ! i)))) \<and>
     ((\<forall>s \<in> set (Structs v). Struct_Name s \<noteq> TypeName rs) \<longrightarrow>
        (\<forall>before after. Operations v = before @ oper # after \<longrightarrow>
           Structs (crossLink v) = Structs (crossLink (v\<lparr>Operations := before @ after\<rparr>))) \<and>
        (\<forall>i < length (Structs v).
           oper \<in> set (Struct_Operations (Structs (crossLink v) ! i)) \<longrightarrow>
           oper \<in> set (Struct_Operations (Structs v ! i))))) \<and>
   (\<forall>i j. i < j \<and> j < length (Structs v) \<and>
        Struct_Name (Structs v ! j) = Struct_Name (Structs v ! i) \<longrightarrow>
      Structs (crossLink v) ! i = Structs v ! i)"
  using last_struct_linked [of oper v rs] crossLink_earlier [of _ _ v]
  by blast

theorem receiver_linkage_witness:
  "getPersons \<in> set (Operations operationsWalked) \<and>
   map_option TypeName (RelatedStruct getPersons) = Some ''Service'' \<and>
   map Struct_Name (Structs (crossLink operationsWalked)) = [''Service'', ''local'', ''Service''] \<and>
   getPersons \<in> set (Struct_Operations (Structs (crossLink operationsWalked) ! 2)) \<and>
   Struct_Operations (Structs (crossLink operationsWalked) ! 0) = []"
proof -
  note inst = receiver_linkage [where v = operationsWalked and oper = getPersons
      and rs = "\<lparr>Field_Name = ''serv'', TypeName = ''Service'', IsPointer = True,
        IsSlice = False, Field_Tag = [], Field_DocLines = [], CommentLines = []\<rparr>"]
  have mem: "getPersons \<in> set (Operations operationsWalked)"
    by code_simp
  have rs: "RelatedStruct getPersons = Some \<lparr>Field_Name = ''serv'', TypeName = ''Service'',
      IsPointer = True, IsSlice = False, Field_Tag = [], Field_DocLines = [],
      CommentLines = []\<rparr>"
    by (simp add: getPersons_def)
  have names: "map Struct_Name (Structs (crossLink operationsWalked)) =
      [''Service'', ''local'', ''Service'']"
    by code_simp
  have names0: "map Struct_Name (Structs operationsWalked) = [''Service'', ''local'', ''Service'']"
    by code_simp
  from names0 have len: "length (Structs operationsWalked) = 3"
    by (simp flip: length_map [of Struct_Name])
  have "''Service'' \<in> set (map Struct_Name (Structs operationsWalked))"
    by (simp add: names0)
  then have ex: "\<exists>s \<in> set (Structs operationsWalked). Struct_Name s = ''Service''"
    by auto
  from mem rs ex len inst
  obtain i where i: "i < 3"
    and last: "\<forall>j. i < j \<and> j < 3 \<longrightarrow>
      Struct_Name (Structs (crossLink operationsWalked) ! j) \<noteq> ''Service''"
    and linked: "getPersons \<in> set (Struct_Operations (Structs (crossLink operationsWalked) ! i))"
    by auto
  from names have "Struct_Name (Structs (crossLink operationsWalked) ! 2) = ''Service''"
    by (simp flip: nth_map [of 2 "Structs (crossLink operationsWalked)" Struct_Name] add: len)
  with last have "\<not> i < 2"
    by auto
  with i have "i = 2"
    by simp
  with linked
  have last_linked: "getPersons \<in> set (Struct_Operations (Structs (crossLink operationsWalked) ! 2))"
    by simp
  have same_name: "Struct_Name (Structs operationsWalked ! 2) =
      Struct_Name (Structs operationsWalked ! 0)"
    by code_simp
  have before: "Struct_Operations (Structs operationsWalked ! 0) = []"
    by code_simp
  from inst have "\<forall>i j. i < j \<and> j < length (Structs operationsWalked) \<and>
        Struct_Name (Structs operationsWalked ! j) = Struct_Name (Structs operationsWalked ! i) \<longrightarrow>
      Structs (crossLink operationsWalked) ! i = Structs operationsWalked ! i"
    by blast
  then have "(0::nat) < 2 \<and> 2 < length (Structs operationsWalked) \<and>
        Struct_Name (Structs operationsWalked ! 2) = Struct_Name (Structs operationsWalked ! 0) \<longrightarrow>
      Structs (crossLink operationsWalked) ! 0 = Structs operationsWalked ! 0"
    by blast
  with same_name len have "Structs (crossLink operationsWalked) ! 0 = Structs operationsWalked ! 0"
    by simp
  with before have earlier: "Struct_Operations (Structs (crossLink operationsWalked) ! 0) = []"
    by simp
  from rs have rs': "map_option TypeName (RelatedStruct getPersons) = Some ''Service''"
    by simp
  from mem rs' names last_linked earlier show ?thesis
    by (intro conjI)
qed

text \<open>
  The claim as stated fails when two scanned structs share a name. In the sample
  directory both packages declare a struct \<^verbatim>\<open>Service\<close>, and \<^verbatim>\<open>getPersons\<close> has the
  receiver type \<^verbatim>\<open>Service\<close>: the struct \<^verbatim>\<open>Service\<close> of package \<^verbatim>\<open>operations\<close>, first in
  the harvest, ends with no operation, and the operation hangs on the struct of the test
  package. When the run meets the packages in the other order it is the first struct
  (that of the test package) that stays without it.
\<close>

theorem receiver_linkage_counterexample:
  "ParseSourceDir listingOrder ''./operations'' (Some matchAll) operationsDir = Inr operationsHarvest \<and>
   Operation_Name (Operations operationsHarvest ! 0) = ''getPersons'' \<and>
   map_option TypeName (RelatedStruct (Operations operationsHarvest ! 0)) = Some ''Service'' \<and>
   Struct_Name (Structs operationsHarvest ! 0) = ''Service'' \<and>
   Struct_Operations (Structs operationsHarvest ! 0) = [] \<and>
   Struct_Name (hd (Structs (projr (ParseSourceDir reverseOrder ''./operations'' (Some matchAll)
       operationsDir)))) = ''Service'' \<and>
   Struct_Operations (hd (Structs (projr (ParseSourceDir reverseOrder ''./operations'' (Some matchAll)
       operationsDir)))) = []"
proof (intro conjI)
  show "ParseSourceDir listingOrder ''./operations'' (Some matchAll) operationsDir = Inr operationsHarvest"
    by code_simp
  show "Operation_Name (Operations operationsHarvest ! 0) = ''getPersons''"
    by (simp add: operationsHarvest_def getPersons_def)
  show "map_option TypeName (RelatedStruct (Operations operationsHarvest ! 0)) = Some ''Service''"
    by (simp add: operationsHarvest_def getPersons_def)
  show "Struct_Name (Structs operationsHarvest ! 0) = ''Service''"
    by (simp add: operationsHarvest_def)
  show "Struct_Operations (Structs operationsHarvest ! 0) = []"
    by (simp add: operationsHarvest_def)
  show "Struct_Name (hd (Structs (projr (ParseSourceDir reverseOrder ''./operations'' (Some matchAll)
       operationsDir)))) = ''Service''"
    by code_simp
  show "Struct_Operations (hd (Structs (projr (ParseSourceDir reverseOrder ''./operations'' (Some matchAll)
       operationsDir)))) = []"
    by code_simp
qed

text \<open>
  Claim C8. The cross-linking pass leaves the operations of the harvest (their
  \<open>RelatedStruct\<close> and every other field), the interfaces and the package name as they
  are, and keeps the number of structs. Of a struct it changes nothing but \<open>Operations\<close>,
  to which it only appends: the appended entries are operations of the harvest, unchanged,
  whose receiver type name is the struct's name; a struct that no receiver names is left
  as it is.
\<close>

theorem cross_link_frame:
  "Operations (crossLink v) = Operations v \<and>
   Interfaces (crossLink v) = Interfaces v \<and>
   PackageName (crossLink v) = PackageName v \<and>
   length (Structs (crossLink v)) = length (Structs v) \<and>
   (\<forall>i < length (Structs v).
      Struct_Name (Structs (crossLink v) ! i) = Struct_Name (Structs v ! i) \<and>
      Struct_PackageName (Structs (crossLink v) ! i) = Struct_PackageName (Structs v ! i) \<and>
      Struct_Fields (Structs (crossLink v) ! i) = Struct_Fields (Structs v ! i) \<and>
      Struct_DocLines (Structs (crossLink v) ! i) = Struct_DocLines (Structs v ! i) \<and>
      Struct_Operations (Structs (crossLink v) ! i) =
        Struct_Operations (Structs v ! i) @
        filter (linksTo (allStructsOf (Structs v)) i) (Operations v) \<and>
      (\<forall>e \<in> set (filter (linksTo (allStructsOf (Structs v)) i) (Operations v)).
         \<exists>rs. RelatedStruct e = Some rs \<and> TypeName rs = Struct_Name (Structs v ! i)) \<and>
      ((\<forall>e \<in> set (Operations v). \<forall>rs. RelatedStruct e = Some rs \<longrightarrow>
          TypeName rs \<noteq> Struct_Name (Structs v ! i)) \<longrightarrow>
        Structs (crossLink v) ! i = Structs v ! i))"
proof (intro conjI allI impI)
  fix i
  assume i: "i < length (Structs v)"
  show "\<forall>e \<in> set (filter (linksTo (allStructsOf (Structs v)) i) (Operations v)).
      \<exists>rs. RelatedStruct e = Some rs \<and> TypeName rs = Struct_Name (Structs v ! i)"
    using linksTo_name [of "Structs v" i] by simp
  assume unnamed: "\<forall>e \<in> set (Operations v). \<forall>rs. RelatedStruct e = Some rs \<longrightarrow>
      TypeName rs \<noteq> Struct_Name (Structs v ! i)"
  have "filter (linksTo (allStructsOf (Structs v)) i) (Operations v) = []"
  proof (rule ccontr)
    assume "filter (linksTo (allStructsOf (Structs v)) i) (Operations v) \<noteq> []"
    then obtain e where "e \<in> set (Operations v)" and "linksTo (allStructsOf (Structs v)) i e"
      by (auto simp: filter_empty_conv)
    with unnamed linksTo_name [of "Structs v" i e] show False
      by auto
  qed
  with i show "Structs (crossLink v) ! i = Structs v ! i"
    by (simp add: crossLink_nth)
qed (simp_all add: crossLink_nth)

theorem cross_link_frame_witness:
  "Operations (crossLink operationsWalked) = [getPersons] \<and>
   Operations operationsWalked = [getPersons] \<and>
   length (Structs operationsWalked) = 3 \<and>
   Struct_Operations (Structs operationsWalked ! 2) = [] \<and>
   Struct_Operations (Structs (crossLink operationsWalked) ! 2) = [getPersons] \<and>
   Structs (crossLink operationsWalked) ! 1 = Structs operationsWalked ! 1"
proof -
  note inst = cross_link_frame [where v = operationsWalked]
  have opers: "Operations operationsWalked = [getPersons]"
    by code_simp
  have len: "length (Structs operationsWalked) = 3"
    by code_simp
  have before: "Struct_Operations (Structs operationsWalked ! 2) = []"
    by code_simp
  have links: "filter (linksTo (allStructsOf (Structs operationsWalked)) 2)
      (Operations operationsWalked) = [getPersons]"
    by code_simp
  have name1: "Struct_Name (Structs operationsWalked ! 1) = ''local''"
    by code_simp
  from inst opers have after: "Operations (crossLink operationsWalked) = [getPersons]"
    by simp
  from inst len have "Struct_Operations (Structs (crossLink operationsWalked) ! 2) =
      Struct_Operations (Structs operationsWalked ! 2) @
      filter (linksTo (allStructsOf (Structs operationsWalked)) 2) (Operations operationsWalked)"
    by simp
  with before links
  have linked: "Struct_Operations (Structs (crossLink operationsWalked) ! 2) = [getPersons]"
    by simp
  have "\<forall>e \<in> set (Operations operationsWalked). \<forall>rs. RelatedStruct e = Some rs \<longrightarrow>
      TypeName rs \<noteq> Struct_Name (Structs operationsWalked ! 1)"
    using name1 by (simp add: opers getPersons_def)
  with inst len have same: "Structs (crossLink operationsWalked) ! 1 = Structs operationsWalked ! 1"
    by simp
  from after opers len before linked same show ?thesis
    by (intro conjI)
qed

end
